theory Spec2Isabelle
  imports Main
begin

section \<open>Strings: the built-in operations used by \<open>mergeHtml\<close>\<close>

text \<open>
  A document is a \<^typ>\<open>string\<close>, a list of code units indexed from 0 as the
  JavaScript string is. The documents of the model are those over the code units
  U+0000 to U+00FF, the range of \<^typ>\<open>char\<close>.

  \<open>toUpperCase\<close> is the case mapping of JavaScript (that of Unicode, the same in every
  locale) on these code units. Its result leaves the range and can be longer than the
  document, so the upper-cased text is a list of code units given by their numbers:
  \<open>a\<close> to \<open>z\<close> become \<open>A\<close> to \<open>Z\<close>; U+00E0 to U+00FE become U+00C0 to U+00DE,
  but for the division sign U+00F7, which has no case; the micro sign U+00B5 becomes
  U+039C and U+00FF becomes U+0178; the sharp s U+00DF becomes the two code units
  \<open>SS\<close>; every other code unit stays as it is. An index found in the upper-cased
  text is therefore an index of the document only when no sharp s stands before it.
  \<open>units\<close> gives the code units of a string, such as a tag name of the source.
\<close>

definition units :: "string \<Rightarrow> nat list" where
  "units s = map of_char s"

definition upperUnit :: "char \<Rightarrow> nat list" where
  "upperUnit c =
     (let n = of_char c in
      if 97 \<le> n \<and> n \<le> 122 then [n - 32]
      else if n = 181 then [924]
      else if n = 223 then [83, 83]
      else if 224 \<le> n \<and> n \<le> 254 \<and> n \<noteq> 247 then [n - 32]
      else if n = 255 then [376]
      else [n])"

definition toUpperCase :: "string \<Rightarrow> nat list" where
  "toUpperCase s = concat (map upperUnit s)"

text \<open>
  \<open>s.indexOf(pat, pos)\<close> is the least index \<open>k \<ge> pos\<close> at which \<open>pat\<close> starts in
  \<open>s\<close>, and \<open>-1\<close> when there is none; \<open>pos\<close> is clamped to \<open>0 .. length s\<close>.
  \<open>scan pat rest k\<close> walks the rest of the text, \<open>k\<close> being the index of its
  first code unit. \<open>mergeHtml\<close> calls \<open>indexOf\<close> on the upper-cased text only, with
  a literal for the pattern.
\<close>

fun startsWith :: "nat list \<Rightarrow> nat list \<Rightarrow> bool" where
  "startsWith s [] = True"
| "startsWith [] (p # ps) = False"
| "startsWith (c # cs) (p # ps) = (c = p \<and> startsWith cs ps)"

fun scan :: "nat list \<Rightarrow> nat list \<Rightarrow> nat \<Rightarrow> int" where
  "scan pat [] k = (if pat = [] then int k else - 1)"
| "scan pat (c # cs) k = (if startsWith (c # cs) pat then int k else scan pat cs (Suc k))"

definition indexOf :: "nat list \<Rightarrow> string \<Rightarrow> int \<Rightarrow> int" where
  "indexOf s pat pos =
     (let k = min (nat pos) (length s) in scan (units pat) (drop k s) k)"

text \<open>
  \<open>s.substring(a, b)\<close> clamps both indices to \<open>0 .. length s\<close> and swaps them when
  \<open>a > b\<close>; \<open>s.substring(a)\<close> runs to the end of the string. \<open>mergeHtml\<close> calls
  them on the document itself, with an index found in the upper-cased text.
\<close>

definition substring :: "string \<Rightarrow> int \<Rightarrow> int \<Rightarrow> string" where
  "substring s a b =
     (let n = int (length s);
          a' = min (max a 0) n; b' = min (max b 0) n;
          lo = min a' b'; hi = max a' b'
      in take (nat (hi - lo)) (drop (nat lo) s))"

definition substringFrom :: "string \<Rightarrow> int \<Rightarrow> string" where
  "substringFrom s a = substring s a (int (length s))"


section \<open>\<open>mergeHtml\<close>: the base tag and the font links merged into a document\<close>

text \<open>
  Modelled from the spec: \<open>escapeHtml\<close> is imported from \<open>./dom\<close>, which is not among
  the sources. The spec (section 6) lists it as the HTML-escaping utility that escapes
  \<open>&\<close>, \<open><\<close>, \<open>>\<close>, the double quote and the single quote, and gives \<open>&amp;\<close> as
  the escape of the ampersand; the other four are given their usual entities here.
\<close>

definition escapeHtmlChar :: "char \<Rightarrow> string" where
  \<open>escapeHtmlChar c =
     (if c = CHR ''&'' then ''&amp;''
      else if c = CHR ''<'' then ''&lt;''
      else if c = CHR ''>'' then ''&gt;''
      else if c = CHR ''"'' then ''&quot;''
      else if c = CHR 0x27 then ''&#x27;''
      else [c])\<close>

definition escapeHtml :: "string \<Rightarrow> string" where
  "escapeHtml text = concat (map escapeHtmlChar text)"

text \<open>
  \<open>FriendlyIframeSpec\<close>: \<open>extensionIds\<close> and \<open>fonts\<close> are optional arrays
  (\<open>None\<close> is \<open>undefined\<close> or \<open>null\<close>; an empty array is \<open>Some []\<close>, which
  JavaScript takes as true in \<open>if (spec.fonts)\<close>).
\<close>

record FriendlyIframeSpec =
  url :: string
  html :: string
  extensionIds :: "string list option"
  fonts :: "string list option"

text \<open>The two template literals of \<open>mergeHtml\<close>.\<close>

definition baseTag :: "string \<Rightarrow> string" where
  \<open>baseTag u = ''<base href="'' @ escapeHtml u @ ''">''\<close>

definition fontLink :: "string \<Rightarrow> string" where
  \<open>fontLink font =
     ''<link href="'' @ escapeHtml font @ ''" rel="stylesheet" type="text/css">''\<close>

text \<open>
  The search for the insertion point (the first part of \<open>mergeHtml\<close>): each
  \<open>let\<close> is one of the source's assignments to \<open>ip\<close>, in order. The argument is
  the upper-cased text.
\<close>

definition insertionPoint :: "nat list \<Rightarrow> int" where
  "insertionPoint originalHtmlUp =
     (let ip = indexOf originalHtmlUp ''<HEAD'' 0;
          ip = (if ip \<noteq> - 1 then indexOf originalHtmlUp ''>'' (ip + 1) + 1 else ip);
          ip = (if ip = - 1 then indexOf originalHtmlUp ''<BODY'' 0 else ip);
          ip = (if ip = - 1
                then (let ip = indexOf originalHtmlUp ''<HTML'' 0
                      in if ip \<noteq> - 1 then indexOf originalHtmlUp ''>'' (ip + 1) + 1 else ip)
                else ip)
      in ip)"

text \<open>
  \<open>result\<close> is the array the source pushes to; \<open>forEach\<close> over the fonts is the
  \<open>foldl\<close>, and \<open>join('')\<close> is \<open>concat\<close>.
\<close>

definition mergeHtml :: "FriendlyIframeSpec \<Rightarrow> string" where
  "mergeHtml spec =
     (let originalHtml = html spec;
          originalHtmlUp = toUpperCase originalHtml;
          ip = insertionPoint originalHtmlUp;
          result = [];
          result = (if ip > 0 then result @ [substring originalHtml 0 ip] else result);
          result = result @ [baseTag (url spec)];
          result = (case fonts spec of
                      None \<Rightarrow> result
                    | Some fs \<Rightarrow> foldl (\<lambda>r font. r @ [fontLink font]) result fs);
          result = (if ip > 0 then result @ [substringFrom originalHtml ip]
                    else result @ [originalHtml])
      in concat result)"


section \<open>The objects: child documents, iframes, embeds and the world around them\<close>

text \<open>
  Objects that the code shares and mutates are kept in a store and named by a
  reference: an iframe element, a window and an embed are each a number, and the
  \<open>World\<close> maps the number to the object's present state. A trailing underscore of
  the source (\<open>visible_\<close>, \<open>setVisible_\<close>) is written as a prime.
\<close>

type_synonym WindowRef = nat
type_synonym IframeRef = nat
type_synonym EmbedRef = nat
type_synonym Node = nat
type_synonym HandlerId = nat
type_synonym HookId = nat

text \<open>
  What can be thrown or rejected with: the failure of a load (the \<open>error\<close> event of the
  load target), the \<open>TypeError\<close> of reading a property of \<open>null\<close>, and an error of
  the extensions service.
\<close>

datatype Error = LoadFailure string | TypeError string | ExtensionError string

text \<open>
  The child document as \<open>isIframeReady\<close> and \<open>startRender_\<close> read it: a body element
  has child nodes and inline styles, a document has a ready-state and may have a body,
  a window may have a document.
\<close>

record Element =
  childNodes :: "Node list"
  elementStyle :: "string \<rightharpoonup> string"

record Document =
  readyState :: string
  body :: "Element option"

record Window =
  document :: "Document option"

text \<open>
  The iframe element: \<open>contentWindow\<close> is \<open>null\<close> until the browser gives the iframe
  a browsing context, and \<open>EMBED_PROP\<close> is the property \<open>__AMP_EMBED__\<close>.
\<close>

record HTMLIFrameElement =
  contentWindow :: "WindowRef option"
  iframeStyle :: "string \<rightharpoonup> string"
  attributes :: "string \<rightharpoonup> string"
  srcdoc :: "string option"
  src :: "string option"
  iframeReadyState :: "string option"
  EMBED_PROP :: "EmbedRef option"

text \<open>
  Modelled from the spec: \<open>Observable\<close> is imported from \<open>./observable\<close>, which is
  not among the sources. The spec (sections 3 and 4.4) describes a notification channel
  with several subscribers, each removable, notified synchronously in subscription
  order. A handler is named by a number; calling it is recorded in the world's trace.
\<close>

record Observable =
  handlers' :: "HandlerId list"

text \<open>
  The fields of the class \<open>FriendlyIframeEmbed\<close>. \<open>signals'\<close> holds the names
  signalled so far (modelled from the spec: \<open>Signals\<close> is imported from
  \<open>./utils/signals\<close>, and the spec, section 3, describes a set of named signals). The
  promise \<open>loadedPromise_\<close> is the one of the installation below and is not copied.
\<close>

record FriendlyIframeEmbed =
  iframe :: IframeRef
  win :: "WindowRef option"
  spec :: FriendlyIframeSpec
  visible' :: bool
  visibilityObservable' :: Observable
  signals' :: "string list"

text \<open>
  Modelled from the spec: the resource tracker (\<open>resourcesForDoc\<close>, from
  \<open>./resources\<close>) and the services of an embed (\<open>disposeServicesForEmbed\<close>, from
  \<open>./service\<close>) are not among the sources. The spec (sections 3, 4.4 and 6) has child
  windows registered with the tracker and services instantiated for a child window;
  a registration is a resource with the window that hosts it, a service is a name held
  for a window.
\<close>

record Resource =
  resourceId :: nat
  hostWin :: WindowRef

text \<open>
  The calls the code makes to its collaborators and to the browser, in the order it
  makes them, with \<open>ResolveReady\<close> for the resolution of \<open>readyPromise\<close> and
  \<open>FulfilInstall\<close>, \<open>RejectInstall\<close> for the settling of the promise that
  \<open>installFriendlyIframeEmbed\<close> returns.
\<close>

datatype Effect =
    LoadExtension string
  | AppendChild IframeRef
  | DocumentOpen WindowRef
  | DocumentWrite WindowRef string
  | DocumentClose WindowRef
  | SetInterval
  | ClearInterval
  | RethrowAsync Error
  | ResolveReady
  | InstallExtensionsInChildWindow "WindowRef option" "string list" "HookId option"
  | Signal EmbedRef string
  | FulfilInstall EmbedRef
  | RejectInstall Error
  | Notify HandlerId bool

record World =
  iframes :: "IframeRef \<Rightarrow> HTMLIFrameElement"
  windows :: "WindowRef \<Rightarrow> Window"
  embeds :: "EmbedRef \<Rightarrow> FriendlyIframeEmbed"
  nextEmbed :: EmbedRef
  srcdocSupported :: "bool option"
  resources :: "Resource list"
  services :: "(WindowRef \<times> string) list"
  trace :: "Effect list"

definition emit :: "Effect \<Rightarrow> World \<Rightarrow> World" where
  "emit x w = w\<lparr>trace := trace w @ [x]\<rparr>"

definition updIframe ::
  "IframeRef \<Rightarrow> (HTMLIFrameElement \<Rightarrow> HTMLIFrameElement) \<Rightarrow> World \<Rightarrow> World" where
  "updIframe ifr f w = w\<lparr>iframes := (iframes w)(ifr := f (iframes w ifr))\<rparr>"

definition updEmbed ::
  "EmbedRef \<Rightarrow> (FriendlyIframeEmbed \<Rightarrow> FriendlyIframeEmbed) \<Rightarrow> World \<Rightarrow> World" where
  "updEmbed e f w = w\<lparr>embeds := (embeds w)(e := f (embeds w e))\<rparr>"


section \<open>\<open>isIframeReady\<close>\<close>

text \<open>
  Modelled from the spec: \<open>isDocumentReady\<close> is imported from \<open>./document-ready\<close>,
  which is not among the sources. The spec (section 6) has it check that the native
  ready-state is not the initial \<open>loading\<close> stage.
\<close>

definition isDocumentReady :: "Document \<Rightarrow> bool" where
  "isDocumentReady doc \<longleftrightarrow> readyState doc \<noteq> ''loading''"

text \<open>\<open>firstChild\<close> and \<open>appendChild\<close> of the DOM, on the child nodes of an element.\<close>

definition firstChild :: "Element \<Rightarrow> Node option" where
  "firstChild e = (case childNodes e of [] \<Rightarrow> None | n # _ \<Rightarrow> Some n)"

definition appendChild :: "Node \<Rightarrow> Element \<Rightarrow> Element" where
  "appendChild n e = e\<lparr>childNodes := childNodes e @ [n]\<rparr>"

text \<open>
  \<open>childDoc\<close> is \<open>iframe.contentWindow && iframe.contentWindow.document\<close>; the
  result is the double negation of the conjunction, where a document, a body and a
  node are true and \<open>null\<close> is false.
\<close>

definition isIframeReady :: "World \<Rightarrow> IframeRef \<Rightarrow> bool" where
  "isIframeReady w ifr =
     (let childDoc = (case contentWindow (iframes w ifr) of
                        None \<Rightarrow> None
                      | Some cw \<Rightarrow> document (windows w cw))
      in case childDoc of
           None \<Rightarrow> False
         | Some d \<Rightarrow>
             isDocumentReady d \<and>
             (case body d of None \<Rightarrow> False | Some b \<Rightarrow> firstChild b \<noteq> None))"


section \<open>The class \<open>FriendlyIframeEmbed\<close>\<close>

text \<open>
  \<open>isSrcdocSupported\<close> with its module-level cache \<open>srcdocSupported\<close>; \<open>native\<close>
  is what \<open>'srcdoc' in HTMLIFrameElement.prototype\<close> evaluates to.
\<close>

definition isSrcdocSupported :: "bool \<Rightarrow> World \<Rightarrow> bool \<times> World" where
  "isSrcdocSupported native w =
     (case srcdocSupported w of
        None \<Rightarrow> (native, w\<lparr>srcdocSupported := Some native\<rparr>)
      | Some v \<Rightarrow> (v, w))"

definition setSrcdocSupportedForTesting :: "bool option \<Rightarrow> World \<Rightarrow> World" where
  "setSrcdocSupportedForTesting val w = w\<lparr>srcdocSupported := val\<rparr>"

text \<open>
  Modelled from the spec: \<open>setStyle\<close> and \<open>setStyles\<close> are imported from \<open>./style\<close>,
  which is not among the sources; they set inline style properties (spec, section 4.3,
  steps 3 and 10). \<open>setAttribute\<close> is the DOM's.
\<close>

definition setStyle :: "IframeRef \<Rightarrow> string \<Rightarrow> string \<Rightarrow> World \<Rightarrow> World" where
  "setStyle ifr property v w =
     updIframe ifr (\<lambda>i. i\<lparr>iframeStyle := (iframeStyle i)(property \<mapsto> v)\<rparr>) w"

definition setStyles :: "(string \<times> string) list \<Rightarrow> Element \<Rightarrow> Element" where
  "setStyles kvs el =
     el\<lparr>elementStyle := fold (\<lambda>(k, v) m. m(k \<mapsto> v)) kvs (elementStyle el)\<rparr>"

definition setAttribute :: "IframeRef \<Rightarrow> string \<Rightarrow> string \<Rightarrow> World \<Rightarrow> World" where
  "setAttribute ifr name v w =
     updIframe ifr (\<lambda>i. i\<lparr>attributes := (attributes i)(name \<mapsto> v)\<rparr>) w"

text \<open>
  Modelled from the spec: the operations of \<open>Observable\<close> (see the record above).
  \<open>add\<close> subscribes a handler after those already subscribed, and \<open>fire\<close> calls
  every subscribed handler with the event, in subscription order.
\<close>

definition Observable_add :: "HandlerId \<Rightarrow> Observable \<Rightarrow> Observable" where
  "Observable_add h ob = ob\<lparr>handlers' := handlers' ob @ [h]\<rparr>"

definition Observable_fire :: "Observable \<Rightarrow> bool \<Rightarrow> World \<Rightarrow> World" where
  "Observable_fire ob event w = fold (\<lambda>h. emit (Notify h event)) (handlers' ob) w"

text \<open>The constructor: a new embed object, with \<open>this.win = iframe.contentWindow\<close>.\<close>

definition newFriendlyIframeEmbed ::
  "IframeRef \<Rightarrow> FriendlyIframeSpec \<Rightarrow> World \<Rightarrow> EmbedRef \<times> World" where
  "newFriendlyIframeEmbed ifr sp w =
     (let e = nextEmbed w;
          this = \<lparr>iframe = ifr,
                  win = contentWindow (iframes w ifr),
                  spec = sp,
                  visible' = False,
                  visibilityObservable' = \<lparr>handlers' = []\<rparr>,
                  signals' = []\<rparr>
      in (e, w\<lparr>embeds := (embeds w)(e := this), nextEmbed := Suc e\<rparr>))"

text \<open>
  Modelled from the spec: \<open>removeForChildWindow\<close> deregisters the child window from
  the resource tracker, and \<open>disposeServicesForEmbed\<close> disposes the services
  instantiated for it (spec, section 4.4).
\<close>

definition removeForChildWindow :: "WindowRef option \<Rightarrow> Resource list \<Rightarrow> Resource list" where
  "removeForChildWindow childWin rs = filter (\<lambda>r. Some (hostWin r) \<noteq> childWin) rs"

definition disposeServicesForEmbed ::
  "WindowRef option \<Rightarrow> (WindowRef \<times> string) list \<Rightarrow> (WindowRef \<times> string) list" where
  "disposeServicesForEmbed embedWin svs = filter (\<lambda>s. Some (fst s) \<noteq> embedWin) svs"

text \<open>\<open>destroy\<close>: the two statements of the source, in order.\<close>

definition destroy :: "EmbedRef \<Rightarrow> World \<Rightarrow> World" where
  "destroy e w =
     (let this = embeds w e;
          w = w\<lparr>resources := removeForChildWindow (win this) (resources w)\<rparr>;
          w = w\<lparr>services := disposeServicesForEmbed (win this) (services w)\<rparr>
      in w)"

definition getFriendlyIframeEmbedOptional :: "World \<Rightarrow> IframeRef \<Rightarrow> EmbedRef option" where
  "getFriendlyIframeEmbedOptional w ifr = EMBED_PROP (iframes w ifr)"

definition isVisible :: "World \<Rightarrow> EmbedRef \<Rightarrow> bool" where
  "isVisible w e = visible' (embeds w e)"

definition onVisibilityChanged :: "EmbedRef \<Rightarrow> HandlerId \<Rightarrow> World \<Rightarrow> World" where
  "onVisibilityChanged e handler w =
     updEmbed e (\<lambda>this. this\<lparr>visibilityObservable' :=
        Observable_add handler (visibilityObservable' this)\<rparr>) w"

text \<open>
  \<open>setVisible_\<close>: the flag is compared, then stored, and the stored flag is what is
  fired.
\<close>

definition setVisible' :: "EmbedRef \<Rightarrow> bool \<Rightarrow> World \<Rightarrow> World" where
  "setVisible' e visible w =
     (if visible' (embeds w e) \<noteq> visible
      then (let w = updEmbed e (\<lambda>this. this\<lparr>visible' := visible\<rparr>) w
            in Observable_fire (visibilityObservable' (embeds w e)) (visible' (embeds w e)) w)
      else w)"

definition setFriendlyIframeEmbedVisible :: "EmbedRef \<Rightarrow> bool \<Rightarrow> World \<Rightarrow> World" where
  "setFriendlyIframeEmbedVisible e visible w = setVisible' e visible w"

text \<open>
  \<open>startRender_\<close>: the signal, the style of the iframe, and the styles of the body
  when the child document has one. Reading \<open>this.win.document\<close> of a \<open>null\<close> window
  throws; the error is returned with the world as it stands then.
\<close>

definition startRender' :: "EmbedRef \<Rightarrow> World \<Rightarrow> Error option \<times> World" where
  "startRender' e w =
     (let w = emit (Signal e ''render-start'')
                (updEmbed e (\<lambda>this. this\<lparr>signals' := signals' this @ [''render-start'']\<rparr>) w);
          w = setStyle (iframe (embeds w e)) ''visibility'' '''' w
      in case win (embeds w e) of
           None \<Rightarrow> (Some (TypeError ''document''), w)
         | Some cw \<Rightarrow>
             (case document (windows w cw) of
                None \<Rightarrow> (None, w)
              | Some d \<Rightarrow>
                  (case body d of
                     None \<Rightarrow> (None, w)
                   | Some b \<Rightarrow>
                       (None, w\<lparr>windows := (windows w)(cw := (windows w cw)\<lparr>document :=
                              Some (d\<lparr>body := Some (setStyles
                                [(''opacity'', ''1''), (''visibility'', ''visible''),
                                 (''animation'', ''none'')] b)\<rparr>)\<rparr>)\<rparr>))))"


section \<open>\<open>installFriendlyIframeEmbed\<close>\<close>

text \<open>
  The function runs in three parts: the synchronous part, up to the return of the
  promise; the callbacks it has registered (the interval timer, and the reactions to
  \<open>loadedPromise\<close>), each run by the event loop when its event arrives; and the
  callback of \<open>readyPromise.then\<close>, run as a microtask once \<open>readyPromise\<close> is
  resolved. The events come from outside:
  \<^item> \<open>LoadEvent\<close> and \<open>ErrorEvent\<close> of a target (the iframe or the child window);
  \<^item> \<open>IntervalFires\<close>, the timer set with \<open>win.setInterval\<close>;
  \<^item> \<open>DomChange\<close>, the browser building the child document.
  Modelled from the spec: \<open>loadPromise\<close> is imported from \<open>./event-helper\<close>, which is
  not among the sources; by the spec (section 6) its promise resolves on the load
  event of its target and rejects on its error event.
\<close>

datatype Target = IframeTarget IframeRef | WindowTarget WindowRef

datatype Event =
    LoadEvent Target
  | ErrorEvent Target Error
  | IntervalFires
  | DomChange WindowRef Window

datatype Settled = Pending | Resolved | Rejected Error

datatype InstallResult = NotSettled | Fulfilled EmbedRef | RejectedWith Error

text \<open>
  What the surroundings decide during an installation: whether the iframe prototype
  has \<open>srcdoc\<close>; the window the iframe gets when it is appended to the container
  (\<open>None\<close> when the container is not in a document); the document that stands in the
  child window once \<open>open\<close>, \<open>write\<close> and \<open>close\<close> have returned; and whether
  \<open>installExtensionsInChildWindow\<close> throws (the extensions service is imported from
  \<open>./extensions\<close> and its calls are recorded in the trace).
\<close>

record Environment =
  nativeSrcdoc :: bool
  attachedWindow :: "WindowRef option"
  parsed :: "string \<Rightarrow> Document"
  extensionsThrow :: "Error option"

text \<open>
  The variables of one call, as its callbacks see them: the arguments, the target of
  \<open>loadPromise\<close>, the state of \<open>loadedPromise\<close>, whether the branch that waits was
  taken (\<open>waiting\<close>), whether the interval timer is set and not cleared
  (\<open>interval\<close>), whether \<open>readyPromise\<close> is resolved, and the state of the promise
  returned to the caller.
\<close>

record Installation =
  instIframe :: IframeRef
  instSpec :: FriendlyIframeSpec
  opt_preinstallCallback :: "HookId option"
  installThrows :: "Error option"
  loadTarget :: Target
  loadedPromise :: Settled
  waiting :: bool
  interval :: bool
  readyPromise :: bool
  installPromise :: InstallResult

text \<open>
  The callback of \<open>readyPromise.then\<close>: the embed is constructed and stored on the
  iframe, the extensions are installed in the child window with
  \<open>spec.extensionIds || []\<close> and the hook, rendering starts, and the embed is
  returned. An exception rejects the returned promise.
\<close>

definition whenReady :: "Installation \<times> World \<Rightarrow> Installation \<times> World" where
  "whenReady s =
     (let (t, w) = s;
          (embed, w) = newFriendlyIframeEmbed (instIframe t) (instSpec t) w;
          w = updIframe (instIframe t) (\<lambda>i. i\<lparr>EMBED_PROP := Some embed\<rparr>) w;
          childWin = contentWindow (iframes w (instIframe t));
          w = emit (InstallExtensionsInChildWindow childWin
                      (case extensionIds (instSpec t) of None \<Rightarrow> [] | Some ids \<Rightarrow> ids)
                      (opt_preinstallCallback t)) w
      in case installThrows t of
           Some err \<Rightarrow> (t\<lparr>installPromise := RejectedWith err\<rparr>, emit (RejectInstall err) w)
         | None \<Rightarrow>
             (case startRender' embed w of
                (Some err, w) \<Rightarrow>
                  (t\<lparr>installPromise := RejectedWith err\<rparr>, emit (RejectInstall err) w)
              | (None, w) \<Rightarrow>
                  (t\<lparr>installPromise := Fulfilled embed\<rparr>, emit (FulfilInstall embed) w)))"

text \<open>
  The microtasks that follow a callback: the callback of \<open>readyPromise.then\<close> runs
  once, when \<open>readyPromise\<close> is resolved.
\<close>

definition microtasks :: "Installation \<times> World \<Rightarrow> Installation \<times> World" where
  "microtasks s =
     (if readyPromise (fst s) \<and> installPromise (fst s) = NotSettled then whenReady s else s)"

text \<open>
  \<open>resolve()\<close> of \<open>readyPromise\<close> (a second call does nothing) and
  \<open>win.clearInterval(interval)\<close>.
\<close>

definition resolve :: "Installation \<times> World \<Rightarrow> Installation \<times> World" where
  "resolve s =
     (let (t, w) = s
      in if readyPromise t then (t, w) else (t\<lparr>readyPromise := True\<rparr>, emit ResolveReady w))"

definition clearInterval :: "Installation \<times> World \<Rightarrow> Installation \<times> World" where
  "clearInterval s = (let (t, w) = s in (t\<lparr>interval := False\<rparr>, emit ClearInterval w))"

text \<open>The callback given to \<open>win.setInterval\<close>.\<close>

definition intervalCallback :: "Installation \<times> World \<Rightarrow> Installation \<times> World" where
  "intervalCallback s =
     (let (t, w) = s
      in if isIframeReady w (instIframe t) then clearInterval (resolve (t, w)) else (t, w))"

text \<open>
  The reactions \<open>loadedPromise.catch(error => rethrowAsync(error)).then(...)\<close>, run
  when \<open>loadedPromise\<close> has settled: the first only on a rejection, the second after
  it in both cases. \<open>rethrowAsync\<close> is imported from \<open>./log\<close>; its call is recorded.
\<close>

definition loadedSettled :: "Installation \<times> World \<Rightarrow> Installation \<times> World" where
  "loadedSettled s =
     (let (t, w) = s;
          w = (case loadedPromise t of Rejected error \<Rightarrow> emit (RethrowAsync error) w | _ \<Rightarrow> w)
      in clearInterval (resolve (t, w)))"

text \<open>
  \<open>loadedPromise\<close> settles once; its reactions are registered only in the branch that
  waits.
\<close>

definition settleLoaded :: "Settled \<Rightarrow> Installation \<times> World \<Rightarrow> Installation \<times> World" where
  "settleLoaded outcome s =
     (let (t, w) = s
      in if loadedPromise t = Pending
         then (let t = t\<lparr>loadedPromise := outcome\<rparr>
               in if waiting t then microtasks (loadedSettled (t, w)) else (t, w))
         else (t, w))"

text \<open>
  One task of the event loop. The load event of the iframe first runs \<open>iframe.onload\<close>,
  which sets \<open>iframe.readyState\<close>.
\<close>

fun step :: "Event \<Rightarrow> Installation \<times> World \<Rightarrow> Installation \<times> World" where
  "step (DomChange r newWindow) (t, w) = (t, w\<lparr>windows := (windows w)(r := newWindow)\<rparr>)"
| "step IntervalFires (t, w) =
     (if interval t then microtasks (intervalCallback (t, w)) else (t, w))"
| "step (LoadEvent target) (t, w) =
     (let w = (if target = IframeTarget (instIframe t)
               then updIframe (instIframe t) (\<lambda>i. i\<lparr>iframeReadyState := Some ''complete''\<rparr>) w
               else w)
      in if target = loadTarget t then settleLoaded Resolved (t, w) else (t, w))"
| "step (ErrorEvent target error) (t, w) =
     (if target = loadTarget t then settleLoaded (Rejected error) (t, w) else (t, w))"

text \<open>
  The wait for the document (from \<open>let readyPromise\<close> on): already ready, or the
  interval timer and the reactions to \<open>loadedPromise\<close>.
\<close>

definition awaitReady ::
  "Environment \<Rightarrow> IframeRef \<Rightarrow> FriendlyIframeSpec \<Rightarrow> HookId option \<Rightarrow> Target \<Rightarrow> World
     \<Rightarrow> Installation \<times> World" where
  "awaitReady env ifr sp hook target w =
     (let t = \<lparr>instIframe = ifr, instSpec = sp, opt_preinstallCallback = hook,
               installThrows = extensionsThrow env, loadTarget = target,
               loadedPromise = Pending, waiting = False, interval = False,
               readyPromise = False, installPromise = NotSettled\<rparr>
      in if isIframeReady w ifr
         then (t\<lparr>readyPromise := True\<rparr>, emit ResolveReady w)
         else (t\<lparr>waiting := True, interval := True\<rparr>, emit SetInterval w))"

definition containerAppendChild :: "Environment \<Rightarrow> IframeRef \<Rightarrow> World \<Rightarrow> World" where
  "containerAppendChild env ifr w =
     emit (AppendChild ifr) (updIframe ifr (\<lambda>i. i\<lparr>contentWindow := attachedWindow env\<rparr>) w)"

text \<open>
  The synchronous part. \<open>Inl\<close> is an exception thrown to the caller: in the branch
  that writes the document, \<open>iframe.contentWindow.document\<close> of a \<open>null\<close> window and
  \<open>childDoc.open()\<close> of a \<open>null\<close> document. The owning window \<open>win\<close> and the
  extensions service of it are the ones every call of the trace goes to.
\<close>

definition installFriendlyIframeEmbed ::
  "Environment \<Rightarrow> IframeRef \<Rightarrow> FriendlyIframeSpec \<Rightarrow> HookId option \<Rightarrow> World
     \<Rightarrow> Error + Installation \<times> World" where
  "installFriendlyIframeEmbed env ifr sp opt_hook w =
     (let w = setStyle ifr ''visibility'' ''hidden'' w;
          w = setAttribute ifr ''referrerpolicy'' ''unsafe-url'' w;
          w = (case extensionIds sp of
                 None \<Rightarrow> w
               | Some ids \<Rightarrow> fold (\<lambda>extensionId. emit (LoadExtension extensionId)) ids w);
          html = mergeHtml sp;
          (supported, w) = isSrcdocSupported (nativeSrcdoc env) w
      in if supported
         then (let w = updIframe ifr (\<lambda>i. i\<lparr>srcdoc := Some html\<rparr>) w;
                   w = containerAppendChild env ifr w
               in Inr (awaitReady env ifr sp opt_hook (IframeTarget ifr) w))
         else (let w = updIframe ifr (\<lambda>i. i\<lparr>src := Some ''about:blank''\<rparr>) w;
                   w = containerAppendChild env ifr w
               in case contentWindow (iframes w ifr) of
                    None \<Rightarrow> Inl (TypeError ''document'')
                  | Some cw \<Rightarrow>
                      (case document (windows w cw) of
                         None \<Rightarrow> Inl (TypeError ''open'')
                       | Some childDoc \<Rightarrow>
                           (let w = emit (DocumentOpen cw) w;
                                w = emit (DocumentWrite cw html) w;
                                w = emit (DocumentClose cw) w;
                                w = w\<lparr>windows := (windows w)(cw :=
                                      (windows w cw)\<lparr>document := Some (parsed env html)\<rparr>)\<rparr>
                            in Inr (awaitReady env ifr sp opt_hook (WindowTarget cw) w)))))"

text \<open>
  A run: the microtasks that follow the synchronous part, then one task per event.
\<close>

definition run :: "Event list \<Rightarrow> Installation \<times> World \<Rightarrow> Installation \<times> World" where
  "run evs s = fold step evs (microtasks s)"


section \<open>Notions used to state the properties of \<open>mergeHtml\<close>\<close>

text \<open>
  \<open>occursAt pat s i\<close>: the code units of the pattern stand in the text \<open>s\<close> at
  index \<open>i\<close>.
  \<open>firstOccurrence pat s i\<close>: and at no smaller index.
  \<open>fontLinks\<close>: the link tags of the fonts, one per font and in their order.
\<close>

definition occursAt :: "string \<Rightarrow> nat list \<Rightarrow> nat \<Rightarrow> bool" where
  "occursAt pat s i \<longleftrightarrow> take (length pat) (drop i s) = units pat"

definition firstOccurrence :: "string \<Rightarrow> nat list \<Rightarrow> nat \<Rightarrow> bool" where
  "firstOccurrence pat s i \<longleftrightarrow> occursAt pat s i \<and> (\<forall>k<i. \<not> occursAt pat s k)"

definition fontLinks :: "string list option \<Rightarrow> string" where
  "fontLinks fs = (case fs of None \<Rightarrow> [] | Some l \<Rightarrow> concat (map fontLink l))"


section \<open>Example documents\<close>





definition unclosedHeadSpec :: FriendlyIframeSpec where
  "unclosedHeadSpec =
     \<lparr>url = ''https://x.test/'', html = CHR 0xDF # ''<html <head <body hi'',
      extensionIds = None,
      fonts = Some [''https://f.test/a.css'']\<rparr>"

definition twoFontsSpec :: FriendlyIframeSpec where
  "twoFontsSpec =
     \<lparr>url = ''https://x.test/a&b'',
      html = ''<html><head></head><body>hi</body></html>'',
      extensionIds = None,
      fonts = Some [''https://f.test/a.css'', ''https://f.test/b.css?x=1&y=2'']\<rparr>"




definition twoHeadsSpec :: FriendlyIframeSpec where
  "twoHeadsSpec =
     \<lparr>url = ''https://x.test/'', html = ''<head><head <body'',
      extensionIds = None,
      fonts = Some [''https://f.test/a.css'']\<rparr>"


section \<open>Notions used to state the properties of the embed and of its installation\<close>

text \<open>
  \<open>appendToBody n cw\<close>: one node appended to the body of the document of window
  \<open>cw\<close>, and nothing else changed.
\<close>

definition appendToBody :: "Node \<Rightarrow> WindowRef \<Rightarrow> World \<Rightarrow> World" where
  "appendToBody n cw w =
     (case document (windows w cw) of
        None \<Rightarrow> w
      | Some d \<Rightarrow>
          (case body d of
             None \<Rightarrow> w
           | Some b \<Rightarrow>
               w\<lparr>windows := (windows w)(cw :=
                    (windows w cw)\<lparr>document := Some (d\<lparr>body := Some (appendChild n b)\<rparr>)\<rparr>)\<rparr>))"

text \<open>
  The milestones of an installation among the effects of the trace: the readiness wait
  satisfied, the extensions installed in the child window, a signal, and the settling
  of the returned promise. \<open>specExtensionIds\<close> is \<open>spec.extensionIds || []\<close>.
\<close>

fun milestone :: "Effect \<Rightarrow> bool" where
  "milestone ResolveReady = True"
| "milestone (InstallExtensionsInChildWindow cw ids hook) = True"
| "milestone (Signal e name) = True"
| "milestone (FulfilInstall e) = True"
| "milestone (RejectInstall err) = True"
| "milestone _ = False"

definition specExtensionIds :: "FriendlyIframeSpec \<Rightarrow> string list" where
  "specExtensionIds sp = (case extensionIds sp of None \<Rightarrow> [] | Some ids \<Rightarrow> ids)"

text \<open>
  The invariant of a run, between two tasks. \<open>new\<close> is what the installation has added
  to the trace. While the returned promise is not settled, \<open>readyPromise\<close> is not
  resolved and no milestone has been passed; once it is fulfilled, the milestones are
  the four of a successful run, in their order; once it is rejected, the cause is the
  extensions service or a \<open>null\<close> child window.
\<close>

definition progress :: "Installation \<Rightarrow> World \<Rightarrow> Effect list \<Rightarrow> bool" where
  "progress t w new \<longleftrightarrow>
     (case installPromise t of
        NotSettled \<Rightarrow> \<not> readyPromise t \<and> filter milestone new = []
      | Fulfilled e \<Rightarrow>
          readyPromise t \<and> installThrows t = None
          \<and> contentWindow (iframes w (instIframe t)) \<noteq> None
          \<and> filter milestone new =
              [ResolveReady,
               InstallExtensionsInChildWindow (contentWindow (iframes w (instIframe t)))
                 (specExtensionIds (instSpec t)) (opt_preinstallCallback t),
               Signal e ''render-start'', FulfilInstall e]
          \<and> iframeStyle (iframes w (instIframe t)) ''visibility'' = Some ''''
          \<and> EMBED_PROP (iframes w (instIframe t)) = Some e
      | RejectedWith err \<Rightarrow>
          readyPromise t
          \<and> (installThrows t = Some err
               \<or> installThrows t = None \<and> err = TypeError ''document''
                  \<and> contentWindow (iframes w (instIframe t)) = None))"

definition Inv :: "Effect list \<Rightarrow> Installation \<times> World \<Rightarrow> bool" where
  "Inv T0 s \<longleftrightarrow> (\<exists>new. trace (snd s) = T0 @ new \<and> progress (fst s) (snd s) new)"

text \<open>
  \<open>readyNow\<close>: what every callback that finds the wait over does, with the microtasks
  after it. \<open>sameTask\<close>: the parts of an installation that no task changes.
\<close>

definition readyNow :: "Installation \<times> World \<Rightarrow> Installation \<times> World" where
  "readyNow s = microtasks (clearInterval (resolve s))"

definition sameTask :: "Installation \<Rightarrow> Installation \<Rightarrow> bool" where
  "sameTask t t' \<longleftrightarrow>
     instIframe t' = instIframe t \<and> instSpec t' = instSpec t
     \<and> opt_preinstallCallback t' = opt_preinstallCallback t
     \<and> installThrows t' = installThrows t \<and> loadTarget t' = loadTarget t
     \<and> waiting t' = waiting t"


section \<open>Example worlds\<close>

text \<open>
  A host page with two child windows known to the resource tracker and to the services,
  in a browser that has \<open>srcdoc\<close> and gives the iframe the window 5, whose document is
  complete but has an empty body (the browsers of the source's comment). \<open>adSpec\<close> is
  installed on iframe 3 with the hook 9: \<open>waitingInstall\<close> is the installation when
  the call returns, and \<open>installedState\<close> the state after a poll that finds nothing,
  the arrival of a node in the body, and a second poll. \<open>subscribedWorld\<close> has a new
  embed with the handlers 7 and 8 subscribed in this order.
\<close>

definition blankIframe :: HTMLIFrameElement where
  "blankIframe = \<lparr>contentWindow = None, iframeStyle = Map.empty, attributes = Map.empty,
     srcdoc = None, src = None, iframeReadyState = None, EMBED_PROP = None\<rparr>"

definition blankEmbed :: FriendlyIframeEmbed where
  "blankEmbed = \<lparr>iframe = 0, win = None,
     spec = \<lparr>url = [], html = [], extensionIds = None, fonts = None\<rparr>,
     visible' = False, visibilityObservable' = \<lparr>handlers' = []\<rparr>, signals' = []\<rparr>"

definition emptyBody :: Element where
  "emptyBody = \<lparr>childNodes = [], elementStyle = Map.empty\<rparr>"

definition emptyBodyDoc :: Document where
  "emptyBodyDoc = \<lparr>readyState = ''complete'', body = Some emptyBody\<rparr>"

definition hostWorld :: World where
  "hostWorld = \<lparr>iframes = (\<lambda>_. blankIframe),
     windows = (\<lambda>_. \<lparr>document = Some emptyBodyDoc\<rparr>),
     embeds = (\<lambda>_. blankEmbed), nextEmbed = 0, srcdocSupported = None,
     resources = [\<lparr>resourceId = 1, hostWin = 5\<rparr>, \<lparr>resourceId = 2, hostWin = 6\<rparr>],
     services = [(5, ''viewport''), (6, ''viewport'')], trace = []\<rparr>"

definition chromeLike :: Environment where
  "chromeLike = \<lparr>nativeSrcdoc = True, attachedWindow = Some 5,
     parsed = (\<lambda>_. emptyBodyDoc), extensionsThrow = None\<rparr>"

definition adSpec :: FriendlyIframeSpec where
  "adSpec = \<lparr>url = ''https://x.test/'', html = ''<body>hi</body>'',
     extensionIds = Some [''amp-a'', ''amp-b''], fonts = None\<rparr>"

definition waitingInstall :: "Installation \<times> World" where
  "waitingInstall = projr (installFriendlyIframeEmbed chromeLike 3 adSpec (Some 9) hostWorld)"

definition filledWindow :: Window where
  "filledWindow = \<lparr>document = Some (emptyBodyDoc\<lparr>body := Some (appendChild 1 emptyBody)\<rparr>)\<rparr>"

definition installedState :: "Installation \<times> World" where
  "installedState = run [IntervalFires, DomChange 5 filledWindow, IntervalFires] waitingInstall"

definition attachedWorld :: World where
  "attachedWorld = updIframe 3 (\<lambda>i. i\<lparr>contentWindow := Some 5\<rparr>) hostWorld"

definition subscribedWorld :: World where
  "subscribedWorld =
     onVisibilityChanged 0 8 (onVisibilityChanged 0 7
       (snd (newFriendlyIframeEmbed 3 adSpec attachedWorld)))"


section \<open>What \<open>indexOf\<close> finds\<close>

lemma units_length [simp]: "length (units pat) = length pat"
  by (simp add: units_def)

lemma units_Nil [simp]:
  "units pat = [] \<longleftrightarrow> pat = []" "[] = units pat \<longleftrightarrow> pat = []"
  by (auto simp add: units_def)

lemma startsWith_take: "startsWith s pat \<longleftrightarrow> take (length pat) s = pat"
  by (induction s pat rule: startsWith.induct) auto

lemma occursAt_Cons: "occursAt pat (c # cs) (Suc i) = occursAt pat cs i"
  by (simp add: occursAt_def)

lemma occursAt_zero: "occursAt pat s 0 = startsWith s (units pat)"
  by (simp add: occursAt_def startsWith_take)


lemma scan_none: "\<forall>i. \<not> occursAt pat s i \<Longrightarrow> scan (units pat) s k = - 1"
proof (induction s arbitrary: k)
  case Nil
  then have "\<not> occursAt pat [] 0" by blast
  then show ?case by (auto simp: occursAt_def)
next
  case (Cons c cs)
  from Cons.prems have "\<not> startsWith (c # cs) (units pat)"
    using occursAt_zero by blast
  moreover from Cons.prems have "\<forall>i. \<not> occursAt pat cs i"
    using occursAt_Cons by blast
  ultimately show ?case using Cons.IH by simp
qed

lemma scan_first: "firstOccurrence pat s i \<Longrightarrow> scan (units pat) s k = int (k + i)"
proof (induction s arbitrary: i k)
  case Nil
  then have "pat = []" by (auto simp add: firstOccurrence_def occursAt_def)
  moreover have "i = 0"
  proof (rule ccontr)
    assume "i \<noteq> 0"
    then have "0 < i" by simp
    with Nil have "\<not> occursAt pat [] 0" by (simp add: firstOccurrence_def)
    with \<open>pat = []\<close> show False by (simp add: occursAt_def)
  qed
  ultimately show ?case by simp
next
  case (Cons c cs)
  show ?case
  proof (cases i)
    case 0
    with Cons.prems have "startsWith (c # cs) (units pat)"
      by (simp add: firstOccurrence_def occursAt_zero)
    with 0 show ?thesis by simp
  next
    case (Suc m)
    with Cons.prems have "\<not> startsWith (c # cs) (units pat)"
      using occursAt_zero by (auto simp: firstOccurrence_def)
    moreover have "firstOccurrence pat cs m"
      using Cons.prems Suc unfolding firstOccurrence_def
      by (metis Suc_less_eq occursAt_Cons)
    ultimately show ?thesis using Cons.IH [of m "Suc k"] Suc by simp
  qed
qed


lemma indexOf_first: "firstOccurrence pat s i \<Longrightarrow> indexOf s pat 0 = int i"
  by (simp add: indexOf_def scan_first)

lemma indexOf_from_none:
  "p \<le> length s \<Longrightarrow> \<forall>i. \<not> occursAt pat (drop p s) i \<Longrightarrow> indexOf s pat (int p) = - 1"
  by (simp add: indexOf_def scan_none)


lemma scan_range: "scan pat s k = - 1 \<or> int k \<le> scan pat s k"
  by (induction s arbitrary: k) (auto, force)


lemma scan_first_conv: "scan (units pat) s k = int (k + i) \<Longrightarrow> firstOccurrence pat s i"
proof (induction s arbitrary: i k)
  case Nil
  then have "pat = [] \<and> i = 0" by (auto split: if_splits)
  then show ?case by (simp add: firstOccurrence_def occursAt_def)
next
  case (Cons c cs)
  show ?case
  proof (cases "startsWith (c # cs) (units pat)")
    case True
    with Cons.prems have "i = 0" by simp
    with True show ?thesis by (simp add: firstOccurrence_def occursAt_zero)
  next
    case False
    with Cons.prems have sc: "scan (units pat) cs (Suc k) = int (k + i)" by simp
    with scan_range [of "units pat" cs "Suc k"] have "0 < i" by auto
    then obtain m where m: "i = Suc m" by (cases i) auto
    with sc have "scan (units pat) cs (Suc k) = int (Suc k + m)" by simp
    then have fo: "firstOccurrence pat cs m" by (rule Cons.IH)
    have "\<forall>n<Suc m. \<not> occursAt pat (c # cs) n"
    proof (intro allI impI)
      fix n assume "n < Suc m"
      then show "\<not> occursAt pat (c # cs) n"
        using False fo
        by (cases n) (simp_all add: occursAt_zero occursAt_Cons firstOccurrence_def)
    qed
    with fo m show ?thesis by (simp add: firstOccurrence_def occursAt_Cons)
  qed
qed


lemma indexOf_first_iff: "indexOf s pat 0 = int i \<longleftrightarrow> firstOccurrence pat s i"
  using scan_first_conv [of pat s 0 i] scan_first [of pat s i 0]
  by (auto simp add: indexOf_def)

lemma occursAt_single: "occursAt [c] s i \<longleftrightarrow> i < length s \<and> s ! i = of_char c"
proof (cases "i < length s")
  case True
  then have "drop i s = s ! i # drop (Suc i) s"
    by (simp add: Cons_nth_drop_Suc)
  with True show ?thesis by (simp add: occursAt_def units_def)
next
  case False
  then show ?thesis by (simp add: occursAt_def units_def)
qed

lemma occursAt_bound: "pat \<noteq> [] \<Longrightarrow> occursAt pat s i \<Longrightarrow> i + length pat \<le> length s"
proof -
  assume ne: "pat \<noteq> []" and occ: "occursAt pat s i"
  then have "length (take (length pat) (drop i s)) = length pat"
    by (simp add: occursAt_def)
  then have "min (length s - i) (length pat) = length pat" by simp
  with ne show ?thesis by (cases "length s \<le> i") auto
qed




lemma indexOf_open:
  assumes "i < length s" "\<forall>j. i < j \<and> j < length s \<longrightarrow> s ! j \<noteq> of_char c"
  shows "indexOf s [c] (int i + 1) = - 1"
proof -
  have le: "Suc i \<le> length s" using assms by simp
  have "\<forall>k. \<not> occursAt [c] (drop (Suc i) s) k"
    unfolding occursAt_single using assms by auto
  from indexOf_from_none [OF le this] show ?thesis
    by (simp add: add.commute)
qed


section \<open>Upper-casing and the indices of the document\<close>

text \<open>
  Upper-casing neither makes nor removes a \<open>>\<close>, and the sharp s is the one code unit
  of a document that it lengthens: up to the first sharp s, the upper-cased text and
  the document run index by index.
\<close>

lemma upperUnit_gt: "of_char (CHR ''>'') \<in> set (upperUnit c) \<longleftrightarrow> c = CHR ''>''"
proof -
  have "of_char c = (62::nat) \<longleftrightarrow> c = CHR ''>''"
    using of_char_eq_iff [of c "CHR ''>''", where ?'a = nat] by simp
  then show ?thesis by (auto simp add: upperUnit_def Let_def)
qed



lemma toUpperCase_append: "toUpperCase (a @ b) = toUpperCase a @ toUpperCase b"
  by (simp add: toUpperCase_def)

lemma toUpperCase_no_gt:
  "of_char (CHR ''>'') \<in> set (toUpperCase s) \<longleftrightarrow> CHR ''>'' \<in> set s"
  by (induction s) (auto simp add: toUpperCase_def upperUnit_gt [simplified])





section \<open>The insertion point, case by case\<close>


lemma insertionPoint_head_open:
  assumes "firstOccurrence ''<HEAD'' up i"
    and "\<forall>j. i < j \<and> j < length up \<longrightarrow> up ! j \<noteq> of_char (CHR ''>'')"
  shows "insertionPoint up = 0"
proof -
  have "i + length ''<HEAD'' \<le> length up"
    using assms(1) by (intro occursAt_bound) (simp_all add: firstOccurrence_def)
  then have "i < length up" by simp
  from indexOf_first [OF assms(1)] indexOf_open [OF this assms(2)] show ?thesis
    by (simp add: insertionPoint_def Let_def)
qed




section \<open>The merged document\<close>

lemma foldl_push: "foldl (\<lambda>r x. r @ [g x]) r xs = r @ map g xs"
  by (induction xs arbitrary: r) simp_all

lemma substring_prefix: "substring s 0 b = take (nat b) s"
  by (simp add: substring_def Let_def min_def max_def)

lemma substringFrom_drop: "substringFrom s a = drop (nat a) s"
  by (auto simp add: substringFrom_def substring_def Let_def min_def max_def)

lemma mergeHtml_split:
  "mergeHtml sp =
     (let ip = insertionPoint (toUpperCase (html sp)) in
      if ip > 0
      then take (nat ip) (html sp) @ baseTag (url sp) @ fontLinks (fonts sp)
             @ drop (nat ip) (html sp)
      else baseTag (url sp) @ fontLinks (fonts sp) @ html sp)"
  by (simp add: mergeHtml_def Let_def fontLinks_def foldl_push substring_prefix
      substringFrom_drop split: option.split)

lemma tags_literal:
  \<open>baseTag u @ fontLinks fs @ rest =
     ''<base href="'' @ escapeHtml u @ ''">''
     @ (case fs of None \<Rightarrow> []
        | Some l \<Rightarrow> concat (map (\<lambda>font. ''<link href="'' @ escapeHtml font
                                   @ ''" rel="stylesheet" type="text/css">'') l))
     @ rest\<close>
proof -
  have link: \<open>fontLink = (\<lambda>font. ''<link href="'' @ escapeHtml font
                                @ ''" rel="stylesheet" type="text/css">'')\<close>
    by (rule ext) (simp add: fontLink_def)
  show ?thesis by (simp add: baseTag_def fontLinks_def link split: option.split)
qed

lemmas evalDoc = indexOf_def toUpperCase_def upperUnit_def units_def occursAt_def
  baseTag_def fontLink_def fontLinks_def escapeHtml_def escapeHtmlChar_def









text \<open>
  C4. A spec with a fonts list \<open>fs\<close>: the merged document is the original before
  the insertion point (nothing, when it is not positive), then the one base tag, then
  one stylesheet link per font of \<open>fs\<close> in the order of \<open>fs\<close>, then the original
  from the insertion point on; the address of the base tag and the address of every
  link have gone through \<open>escapeHtml\<close>, which writes an ampersand as \<open>&amp;\<close>.
\<close>

theorem mergeHtml_fonts:
  assumes "fonts sp = Some fs"
  shows \<open>mergeHtml sp =
       take (nat (insertionPoint (toUpperCase (html sp)))) (html sp)
       @ ''<base href="'' @ escapeHtml (url sp) @ ''">''
       @ concat (map (\<lambda>font. ''<link href="'' @ escapeHtml font
                                @ ''" rel="stylesheet" type="text/css">'') fs)
       @ drop (nat (insertionPoint (toUpperCase (html sp)))) (html sp)
     \<and> escapeHtml (a @ ''&'' @ b) = escapeHtml a @ ''&amp;'' @ escapeHtml b\<close>
proof -
  have link: \<open>fontLink = (\<lambda>font. ''<link href="'' @ escapeHtml font
                                @ ''" rel="stylesheet" type="text/css">'')\<close>
    by (rule ext) (simp add: fontLink_def)
  let ?n = "nat (insertionPoint (toUpperCase (html sp)))"
  have "mergeHtml sp =
       take ?n (html sp) @ baseTag (url sp) @ fontLinks (fonts sp) @ drop ?n (html sp)"
    by (simp add: mergeHtml_split Let_def)
  then have \<open>mergeHtml sp =
       take ?n (html sp)
       @ ''<base href="'' @ escapeHtml (url sp) @ ''">''
       @ concat (map (\<lambda>font. ''<link href="'' @ escapeHtml font
                                @ ''" rel="stylesheet" type="text/css">'') fs)
       @ drop ?n (html sp)\<close>
    using assms by (simp add: baseTag_def fontLinks_def link)
  moreover have \<open>escapeHtml (a @ ''&'' @ b) = escapeHtml a @ ''&amp;'' @ escapeHtml b\<close>
    by (simp add: escapeHtml_def escapeHtmlChar_def)
  ultimately show ?thesis by blast
qed

theorem mergeHtml_fonts_witness:
  \<open>fonts twoFontsSpec = Some [''https://f.test/a.css'', ''https://f.test/b.css?x=1&y=2'']
   \<and> insertionPoint (toUpperCase (html twoFontsSpec)) = 12
   \<and> mergeHtml twoFontsSpec =
       ''<html><head>''
       @ ''<base href="https://x.test/a&amp;b">''
       @ ''<link href="https://f.test/a.css" rel="stylesheet" type="text/css">''
       @ ''<link href="https://f.test/b.css?x=1&amp;y=2" rel="stylesheet" type="text/css">''
       @ ''</head><body>hi</body></html>''
   \<and> escapeHtml ''a&b'' = ''a&amp;b''\<close>
proof -
  have h: "fonts twoFontsSpec = Some [''https://f.test/a.css'', ''https://f.test/b.css?x=1&y=2'']"
    by (simp add: twoFontsSpec_def)
  have ip: "insertionPoint (toUpperCase (html twoFontsSpec)) = 12"
    by (simp add: twoFontsSpec_def insertionPoint_def indexOf_def toUpperCase_def upperUnit_def units_def)
  from mergeHtml_fonts [OF h, of "''a''" "''b''"] h ip show ?thesis
    by (simp add: twoFontsSpec_def escapeHtml_def escapeHtmlChar_def)
qed

text \<open>
  C10, as stated, fails when the \<open><head\<close> with no \<open>>\<close> after it is not the first
  one. In the document of \<open>twoHeadsSpec\<close>, \<open><head><head <body\<close>, the \<open><head\<close> at
  index 6 has no \<open>>\<close> at any later index, but the search stops at the first
  \<open><HEAD\<close>, at index 0, which is closed at index 5: the insertion point is 6, and
  the base tag and the font link are injected after \<open><head>\<close>, not before the whole
  document.
\<close>

theorem mergeHtml_later_head_unclosed:
  \<open>occursAt ''<HEAD'' (toUpperCase (html twoHeadsSpec)) 6
   \<and> take 5 (drop 6 (html twoHeadsSpec)) = ''<head''
   \<and> CHR ''>'' \<notin> set (drop 7 (html twoHeadsSpec))
   \<and> insertionPoint (toUpperCase (html twoHeadsSpec)) = 6
   \<and> mergeHtml twoHeadsSpec =
       ''<head><base href="https://x.test/"><link href="https://f.test/a.css" rel="stylesheet" type="text/css"><head <body''\<close>
proof -
  have ip: "insertionPoint (toUpperCase (html twoHeadsSpec)) = 6"
    by (simp add: twoHeadsSpec_def insertionPoint_def evalDoc)
  have \<open>mergeHtml twoHeadsSpec =
       ''<head><base href="https://x.test/"><link href="https://f.test/a.css" rel="stylesheet" type="text/css"><head <body''\<close>
    by (simp add: mergeHtml_split ip) (simp add: twoHeadsSpec_def evalDoc)
  moreover have "occursAt ''<HEAD'' (toUpperCase (html twoHeadsSpec)) 6"
    by (simp add: twoHeadsSpec_def evalDoc)
  moreover have "take 5 (drop 6 (html twoHeadsSpec)) = ''<head''"
    and "CHR ''>'' \<notin> set (drop 7 (html twoHeadsSpec))"
    by (simp_all add: twoHeadsSpec_def)
  ultimately show ?thesis using ip by blast
qed

text \<open>
  C10, amended. A document \<open>a @ b\<close> in which the first \<open><head\<close>, in any case, is
  the beginning of \<open>b\<close> (the first occurrence of \<open><HEAD\<close> in the upper-cased text
  is at the length of the upper-cased \<open>a\<close>) and no \<open>>\<close> stands in \<open>b\<close>: the
  insertion point is 0, and the merged document is the base tag, spelled out, then one
  link tag per font, spelled out, and then the whole original. Nothing is assumed
  about \<open><body\<close> or \<open><html\<close>, which are not looked for in this case, nor about
  the code units of \<open>a\<close>: the document of the witness has both tags, and a
  sharp s before them.
\<close>

theorem mergeHtml_unclosed_head:
  assumes "html sp = a @ b"
    and "firstOccurrence ''<HEAD'' (toUpperCase (html sp)) (length (toUpperCase a))"
    and "CHR ''>'' \<notin> set b"
  shows \<open>insertionPoint (toUpperCase (html sp)) = 0
         \<and> mergeHtml sp =
             ''<base href="'' @ escapeHtml (url sp) @ ''">''
             @ (case fonts sp of None \<Rightarrow> []
                | Some fs \<Rightarrow>
                    concat (map (\<lambda>font. ''<link href="'' @ escapeHtml font
                                   @ ''" rel="stylesheet" type="text/css">'') fs))
             @ html sp\<close>
proof -
  let ?up = "toUpperCase (html sp)" and ?i = "length (toUpperCase a)"
  have up: "?up = toUpperCase a @ toUpperCase b"
    using assms(1) by (simp add: toUpperCase_append)
  have none: "of_char (CHR ''>'') \<notin> set (toUpperCase b)"
    using assms(3) by (simp only: toUpperCase_no_gt) simp
  have "\<forall>j. ?i < j \<and> j < length ?up \<longrightarrow> ?up ! j \<noteq> of_char (CHR ''>'')"
  proof (intro allI impI)
    fix j assume j: "?i < j \<and> j < length ?up"
    then have "?up ! j = toUpperCase b ! (j - ?i)" and "j - ?i < length (toUpperCase b)"
      by (auto simp add: up nth_append)
    then have "?up ! j \<in> set (toUpperCase b)" by simp
    with none show "?up ! j \<noteq> of_char (CHR ''>'')" by metis
  qed
  with assms(2) have ip: "insertionPoint ?up = 0" by (rule insertionPoint_head_open)
  then show ?thesis by (simp only: mergeHtml_split Let_def tags_literal) simp
qed

theorem mergeHtml_unclosed_head_witness:
  \<open>html unclosedHeadSpec = (CHR 0xDF # ''<html '') @ ''<head <body hi''
   \<and> firstOccurrence ''<HEAD'' (toUpperCase (html unclosedHeadSpec)) 8
   \<and> length (toUpperCase (CHR 0xDF # ''<html '')) = 8
   \<and> CHR ''>'' \<notin> set ''<head <body hi''
   \<and> occursAt ''<HTML'' (toUpperCase (html unclosedHeadSpec)) 2
   \<and> occursAt ''<BODY'' (toUpperCase (html unclosedHeadSpec)) 14
   \<and> fonts unclosedHeadSpec = Some [''https://f.test/a.css'']
   \<and> insertionPoint (toUpperCase (html unclosedHeadSpec)) = 0
   \<and> mergeHtml unclosedHeadSpec =
       ''<base href="https://x.test/"><link href="https://f.test/a.css" rel="stylesheet" type="text/css">''
       @ CHR 0xDF # ''<html <head <body hi''\<close>
proof -
  have h1: "html unclosedHeadSpec = (CHR 0xDF # ''<html '') @ ''<head <body hi''"
    by (simp add: unclosedHeadSpec_def)
  have len: "length (toUpperCase (CHR 0xDF # ''<html '')) = 8"
    by (simp add: toUpperCase_def upperUnit_def)
  have "firstOccurrence ''<HEAD'' (toUpperCase (html unclosedHeadSpec)) 8"
    unfolding indexOf_first_iff [symmetric]
    by (simp add: unclosedHeadSpec_def indexOf_def toUpperCase_def upperUnit_def units_def)
  with len have h2: "firstOccurrence ''<HEAD'' (toUpperCase (html unclosedHeadSpec))
      (length (toUpperCase (CHR 0xDF # ''<html '')))"
    by simp
  have h3: "CHR ''>'' \<notin> set ''<head <body hi''" by simp
  have h4: "occursAt ''<HTML'' (toUpperCase (html unclosedHeadSpec)) 2"
    by (simp add: unclosedHeadSpec_def evalDoc)
  have h5: "occursAt ''<BODY'' (toUpperCase (html unclosedHeadSpec)) 14"
    by (simp add: unclosedHeadSpec_def evalDoc)
  have h6: "fonts unclosedHeadSpec = Some [''https://f.test/a.css'']"
    by (simp add: unclosedHeadSpec_def)
  from mergeHtml_unclosed_head [OF h1 h2 h3] have
    ip: "insertionPoint (toUpperCase (html unclosedHeadSpec)) = 0"
    and \<open>mergeHtml unclosedHeadSpec =
          ''<base href="'' @ escapeHtml (url unclosedHeadSpec) @ ''">''
          @ (case fonts unclosedHeadSpec of None \<Rightarrow> []
             | Some fs \<Rightarrow>
                 concat (map (\<lambda>font. ''<link href="'' @ escapeHtml font
                                @ ''" rel="stylesheet" type="text/css">'') fs))
          @ html unclosedHeadSpec\<close>
    by blast+
  then have r: \<open>mergeHtml unclosedHeadSpec =
       ''<base href="https://x.test/"><link href="https://f.test/a.css" rel="stylesheet" type="text/css">''
       @ CHR 0xDF # ''<html <head <body hi''\<close>
    by (simp add: unclosedHeadSpec_def escapeHtml_def escapeHtmlChar_def)
  from h1 h2 len h3 h4 h5 h6 ip r show ?thesis by simp
qed


section \<open>Readiness of the child document\<close>

lemma isDocumentReady_body [simp]: "isDocumentReady (d\<lparr>body := x\<rparr>) = isDocumentReady d"
  by (simp add: isDocumentReady_def)

text \<open>
  C5. \<open>isIframeReady\<close> is true exactly when the child window exists, it has a
  document whose ready-state is past \<open>loading\<close> (\<open>isDocumentReady\<close>), the document
  has a body and the body has at least one child node. In particular, in a state where
  the window, the document and the body exist and the body has no child, it is false;
  and when the document is ready it is true after one node is appended to that body,
  the iframes and the other windows being as before and the document differing only
  in that node.
\<close>

theorem isIframeReady_iff:
  "(isIframeReady w ifr \<longleftrightarrow>
      (\<exists>cw d b. contentWindow (iframes w ifr) = Some cw
         \<and> document (windows w cw) = Some d \<and> isDocumentReady d
         \<and> body d = Some b \<and> childNodes b \<noteq> []))
   \<and> (contentWindow (iframes w ifr) = Some cw \<and> document (windows w cw) = Some d
        \<and> body d = Some b \<and> childNodes b = []
      \<longrightarrow> \<not> isIframeReady w ifr
          \<and> (isDocumentReady d \<longrightarrow> isIframeReady (appendToBody n cw w) ifr)
          \<and> iframes (appendToBody n cw w) = iframes w
          \<and> (\<forall>r. r \<noteq> cw \<longrightarrow> windows (appendToBody n cw w) r = windows w r)
          \<and> document (windows (appendToBody n cw w) cw)
              = Some (d\<lparr>body := Some (b\<lparr>childNodes := [n]\<rparr>)\<rparr>))"
  by (auto simp add: isIframeReady_def firstChild_def appendToBody_def appendChild_def Let_def
      split: option.splits list.splits)

theorem isIframeReady_iff_witness:
  "contentWindow (iframes attachedWorld 3) = Some 5
   \<and> document (windows attachedWorld 5) = Some emptyBodyDoc
   \<and> isDocumentReady emptyBodyDoc
   \<and> body emptyBodyDoc = Some emptyBody \<and> childNodes emptyBody = []
   \<and> \<not> isIframeReady attachedWorld 3
   \<and> isIframeReady (appendToBody 1 5 attachedWorld) 3"
proof -
  have h: "contentWindow (iframes attachedWorld 3) = Some 5
     \<and> document (windows attachedWorld 5) = Some emptyBodyDoc
     \<and> body emptyBodyDoc = Some emptyBody \<and> childNodes emptyBody = []"
    by (simp add: attachedWorld_def hostWorld_def blankIframe_def emptyBodyDoc_def emptyBody_def
        updIframe_def)
  have r: "isDocumentReady emptyBodyDoc"
    by (simp add: isDocumentReady_def emptyBodyDoc_def)
  from isIframeReady_iff [of attachedWorld 3 5 emptyBodyDoc emptyBody 1] h r
  show ?thesis by blast
qed


section \<open>Visibility\<close>

lemma fire_trace:
  "fold (\<lambda>h. emit (f h)) hs w = w\<lparr>trace := trace w @ map f hs\<rparr>"
  by (induction hs arbitrary: w) (simp_all add: emit_def)

text \<open>
  C6. \<open>setVisible_(v)\<close> on an embed whose flag differs from \<open>v\<close> stores \<open>v\<close> and
  notifies every subscribed handler once, in subscription order, with \<open>v\<close>; on an embed
  whose flag is \<open>v\<close> it changes nothing and notifies nobody. From the flag \<open>false\<close>:
  setting \<open>false\<close> adds nothing to the trace, and setting \<open>true\<close>, \<open>false\<close>,
  \<open>true\<close> adds three rounds of notifications, each handler seeing \<open>true\<close>,
  \<open>false\<close>, \<open>true\<close>. A newly constructed embed has the flag \<open>false\<close>, and
  \<open>onVisibilityChanged\<close> subscribes a handler after those already subscribed.
\<close>

theorem setVisible_on_change:
  "(visible' (embeds w e) \<noteq> v \<longrightarrow>
      visible' (embeds (setVisible' e v w) e) = v
      \<and> trace (setVisible' e v w) =
          trace w @ map (\<lambda>h. Notify h v) (handlers' (visibilityObservable' (embeds w e))))
   \<and> (visible' (embeds w e) = v \<longrightarrow> setVisible' e v w = w)
   \<and> (\<not> visible' (embeds w e) \<longrightarrow>
        trace (setVisible' e False w) = trace w
        \<and> trace (setVisible' e True (setVisible' e False (setVisible' e True w))) =
            trace w
            @ map (\<lambda>h. Notify h True) (handlers' (visibilityObservable' (embeds w e)))
            @ map (\<lambda>h. Notify h False) (handlers' (visibilityObservable' (embeds w e)))
            @ map (\<lambda>h. Notify h True) (handlers' (visibilityObservable' (embeds w e))))
   \<and> \<not> visible' (embeds (snd (newFriendlyIframeEmbed ifr sp w))
                       (fst (newFriendlyIframeEmbed ifr sp w)))
   \<and> handlers' (visibilityObservable' (embeds (onVisibilityChanged e h w) e)) =
       handlers' (visibilityObservable' (embeds w e)) @ [h]"
  by (simp add: setVisible'_def Observable_fire_def fire_trace updEmbed_def Let_def
      newFriendlyIframeEmbed_def onVisibilityChanged_def Observable_add_def)

theorem setVisible_on_change_witness:
  "\<not> visible' (embeds subscribedWorld 0)
   \<and> handlers' (visibilityObservable' (embeds subscribedWorld 0)) = [7, 8]
   \<and> trace (setVisible' 0 False subscribedWorld) = trace subscribedWorld
   \<and> setVisible' 0 False subscribedWorld = subscribedWorld
   \<and> visible' (embeds (setVisible' 0 True subscribedWorld) 0)
   \<and> trace (setVisible' 0 True subscribedWorld) =
       trace subscribedWorld @ [Notify 7 True, Notify 8 True]
   \<and> trace (setVisible' 0 True (setVisible' 0 False (setVisible' 0 True subscribedWorld))) =
       trace subscribedWorld
         @ [Notify 7 True, Notify 8 True, Notify 7 False, Notify 8 False,
            Notify 7 True, Notify 8 True]"
proof -
  have v: "\<not> visible' (embeds subscribedWorld 0)"
    by (simp add: subscribedWorld_def onVisibilityChanged_def Observable_add_def
        newFriendlyIframeEmbed_def updEmbed_def updIframe_def attachedWorld_def hostWorld_def
        blankIframe_def blankEmbed_def Let_def)
  have hs: "handlers' (visibilityObservable' (embeds subscribedWorld 0)) = [7, 8]"
    by (simp add: subscribedWorld_def onVisibilityChanged_def Observable_add_def
        newFriendlyIframeEmbed_def updEmbed_def updIframe_def attachedWorld_def hostWorld_def
        blankIframe_def blankEmbed_def Let_def)
  from setVisible_on_change [of subscribedWorld 0 True]
       setVisible_on_change [of subscribedWorld 0 False] v hs
  show ?thesis by simp
qed


section \<open>The installation: what a task does to the state\<close>

lemma emit_fields [simp]:
  "trace (emit x w) = trace w @ [x]" "iframes (emit x w) = iframes w"
  "windows (emit x w) = windows w" "embeds (emit x w) = embeds w"
  "nextEmbed (emit x w) = nextEmbed w" "resources (emit x w) = resources w"
  "services (emit x w) = services w" "srcdocSupported (emit x w) = srcdocSupported w"
  by (simp_all add: emit_def)

lemma updIframe_fields [simp]:
  "trace (updIframe i f w) = trace w" "iframes (updIframe i f w) = (iframes w)(i := f (iframes w i))"
  "windows (updIframe i f w) = windows w" "embeds (updIframe i f w) = embeds w"
  "nextEmbed (updIframe i f w) = nextEmbed w" "resources (updIframe i f w) = resources w"
  "services (updIframe i f w) = services w" "srcdocSupported (updIframe i f w) = srcdocSupported w"
  by (simp_all add: updIframe_def)

lemma updEmbed_fields [simp]:
  "trace (updEmbed e f w) = trace w" "iframes (updEmbed e f w) = iframes w"
  "windows (updEmbed e f w) = windows w" "embeds (updEmbed e f w) = (embeds w)(e := f (embeds w e))"
  "nextEmbed (updEmbed e f w) = nextEmbed w" "resources (updEmbed e f w) = resources w"
  "services (updEmbed e f w) = services w" "srcdocSupported (updEmbed e f w) = srcdocSupported w"
  by (simp_all add: updEmbed_def)

lemma isIframeReady_emit [simp]: "isIframeReady (emit x w) i = isIframeReady w i"
  by (simp add: isIframeReady_def split: option.splits)

lemma whenReady_fst:
  "fst (whenReady (t, w)) = t\<lparr>installPromise :=
     (case installThrows t of
        Some err \<Rightarrow> RejectedWith err
      | None \<Rightarrow> (case contentWindow (iframes w (instIframe t)) of
                   None \<Rightarrow> RejectedWith (TypeError ''document'')
                 | Some cw \<Rightarrow> Fulfilled (nextEmbed w)))\<rparr>"
  by (simp add: whenReady_def startRender'_def newFriendlyIframeEmbed_def setStyle_def Let_def
      split: option.splits prod.splits)

lemma whenReady_trace:
  "trace (snd (whenReady (t, w))) =
     trace w @
       InstallExtensionsInChildWindow (contentWindow (iframes w (instIframe t)))
         (specExtensionIds (instSpec t)) (opt_preinstallCallback t)
       # (case installThrows t of
            Some err \<Rightarrow> [RejectInstall err]
          | None \<Rightarrow> Signal (nextEmbed w) ''render-start''
              # (case contentWindow (iframes w (instIframe t)) of
                   None \<Rightarrow> [RejectInstall (TypeError ''document'')]
                 | Some cw \<Rightarrow> [FulfilInstall (nextEmbed w)]))"
  by (simp add: whenReady_def startRender'_def newFriendlyIframeEmbed_def setStyle_def Let_def
      specExtensionIds_def split: option.splits prod.splits)

lemma whenReady_iframes:
  "contentWindow (iframes (snd (whenReady (t, w))) i) = contentWindow (iframes w i)"
  "i = instIframe t \<Longrightarrow> EMBED_PROP (iframes (snd (whenReady (t, w))) i) = Some (nextEmbed w)"
  "i = instIframe t \<Longrightarrow> installThrows t = None \<Longrightarrow>
     iframeStyle (iframes (snd (whenReady (t, w))) i) ''visibility'' = Some []"
  by (simp_all add: whenReady_def startRender'_def newFriendlyIframeEmbed_def setStyle_def Let_def
      split: option.splits prod.splits)

lemma readyNow_settled:
  "installPromise t \<noteq> NotSettled \<Longrightarrow> readyPromise t \<Longrightarrow>
     readyNow (t, w) = (t\<lparr>interval := False\<rparr>, emit ClearInterval w)"
  by (simp add: readyNow_def microtasks_def clearInterval_def resolve_def)

lemma readyNow_fresh:
  "installPromise t = NotSettled \<Longrightarrow> \<not> readyPromise t \<Longrightarrow>
     readyNow (t, w) =
       whenReady (t\<lparr>readyPromise := True, interval := False\<rparr>,
                  emit ClearInterval (emit ResolveReady w))"
  by (simp add: readyNow_def microtasks_def clearInterval_def resolve_def)

lemma interval_readyNow:
  "microtasks (intervalCallback (t, w)) =
     (if isIframeReady w (instIframe t) then readyNow (t, w) else microtasks (t, w))"
  by (simp add: intervalCallback_def readyNow_def)

lemma loaded_readyNow:
  "microtasks (loadedSettled (t, w)) =
     readyNow (t, case loadedPromise t of Rejected error \<Rightarrow> emit (RethrowAsync error) w
                  | _ \<Rightarrow> w)"
  by (simp add: loadedSettled_def readyNow_def)


section \<open>The invariant of a run\<close>

lemma progress_quiet:
  assumes "progress t w new"
    and "installPromise t' = installPromise t" "readyPromise t' = readyPromise t"
    and "installThrows t' = installThrows t" "instIframe t' = instIframe t"
    and "instSpec t' = instSpec t" "opt_preinstallCallback t' = opt_preinstallCallback t"
    and "filter milestone q = []"
    and "contentWindow (iframes w' (instIframe t)) = contentWindow (iframes w (instIframe t))"
    and "iframeStyle (iframes w' (instIframe t)) = iframeStyle (iframes w (instIframe t))"
    and "EMBED_PROP (iframes w' (instIframe t)) = EMBED_PROP (iframes w (instIframe t))"
  shows "progress t' w' (new @ q)"
  using assms unfolding progress_def by (simp split: InstallResult.splits)

lemma Inv_quiet:
  assumes "Inv T0 (t, w)"
    and "installPromise t' = installPromise t" "readyPromise t' = readyPromise t"
    and "installThrows t' = installThrows t" "instIframe t' = instIframe t"
    and "instSpec t' = instSpec t" "opt_preinstallCallback t' = opt_preinstallCallback t"
    and "trace w' = trace w @ q" "filter milestone q = []"
    and "contentWindow (iframes w' (instIframe t)) = contentWindow (iframes w (instIframe t))"
    and "iframeStyle (iframes w' (instIframe t)) = iframeStyle (iframes w (instIframe t))"
    and "EMBED_PROP (iframes w' (instIframe t)) = EMBED_PROP (iframes w (instIframe t))"
  shows "Inv T0 (t', w')"
proof -
  from assms(1) obtain new where new: "trace w = T0 @ new" and p: "progress t w new"
    by (auto simp add: Inv_def)
  have "trace w' = T0 @ (new @ q)" using new assms(8) by simp
  moreover have "progress t' w' (new @ q)"
    using p assms(2-7) assms(9-12) by (rule progress_quiet)
  ultimately show ?thesis unfolding Inv_def by auto
qed

lemma Inv_readyNow:
  assumes "Inv T0 (t, w)"
  shows "Inv T0 (readyNow (t, w))"
proof (cases "installPromise t = NotSettled")
  case False
  with assms have r: "readyPromise t"
    by (cases "installPromise t") (auto simp add: Inv_def progress_def)
  show ?thesis
    unfolding readyNow_settled [OF False r]
    by (rule Inv_quiet [OF assms, where q = "[ClearInterval]"]) simp_all
next
  case True
  with assms have nr: "\<not> readyPromise t" by (auto simp add: Inv_def progress_def)
  from assms True obtain new where new: "trace w = T0 @ new" "filter milestone new = []"
    by (auto simp add: Inv_def progress_def)
  let ?t = "t\<lparr>readyPromise := True, interval := False\<rparr>"
  let ?w = "emit ClearInterval (emit ResolveReady w)"
  let ?s = "whenReady (?t, ?w)"
  let ?new = "new @ ResolveReady # ClearInterval #
       InstallExtensionsInChildWindow (contentWindow (iframes w (instIframe t)))
         (specExtensionIds (instSpec t)) (opt_preinstallCallback t)
       # (case installThrows t of
            Some err \<Rightarrow> [RejectInstall err]
          | None \<Rightarrow> Signal (nextEmbed w) ''render-start''
              # (case contentWindow (iframes w (instIframe t)) of
                   None \<Rightarrow> [RejectInstall (TypeError ''document'')]
                 | Some cw \<Rightarrow> [FulfilInstall (nextEmbed w)]))"
  have tr: "trace (snd ?s) = T0 @ ?new"
    by (simp add: whenReady_trace new split: option.splits)
  have "progress (fst ?s) (snd ?s) ?new"
    unfolding progress_def using new(2)
    by (auto simp add: whenReady_fst whenReady_iframes split: option.splits)
  with tr show ?thesis
    unfolding readyNow_fresh [OF True nr] Inv_def by blast
qed

lemma Inv_whenReady:
  assumes "trace w = T0 @ new" "filter milestone new = [ResolveReady]"
    and "readyPromise t" "installPromise t = NotSettled"
  shows "Inv T0 (whenReady (t, w))"
proof -
  let ?s = "whenReady (t, w)"
  let ?new = "new @
       InstallExtensionsInChildWindow (contentWindow (iframes w (instIframe t)))
         (specExtensionIds (instSpec t)) (opt_preinstallCallback t)
       # (case installThrows t of
            Some err \<Rightarrow> [RejectInstall err]
          | None \<Rightarrow> Signal (nextEmbed w) ''render-start''
              # (case contentWindow (iframes w (instIframe t)) of
                   None \<Rightarrow> [RejectInstall (TypeError ''document'')]
                 | Some cw \<Rightarrow> [FulfilInstall (nextEmbed w)]))"
  have tr: "trace (snd ?s) = T0 @ ?new"
    by (simp add: whenReady_trace assms(1))
  have "progress (fst ?s) (snd ?s) ?new"
    unfolding progress_def using assms(2,3)
    by (auto simp add: whenReady_fst whenReady_iframes split: option.splits)
  with tr show ?thesis unfolding Inv_def by blast
qed

lemma Inv_microtasks: "Inv T0 s \<Longrightarrow> microtasks s = s"
  by (cases "installPromise (fst s)") (auto simp add: Inv_def progress_def microtasks_def)

lemma Inv_settleLoaded:
  assumes "Inv T0 (t, w)"
  shows "Inv T0 (settleLoaded outcome (t, w))"
proof (cases "loadedPromise t = Pending")
  case False
  then show ?thesis using assms by (simp add: settleLoaded_def)
next
  case True
  let ?t = "t\<lparr>loadedPromise := outcome\<rparr>"
  show ?thesis
  proof (cases "waiting t")
    case False
    have "Inv T0 (?t, w)" by (rule Inv_quiet [OF assms, where q = "[]"]) simp_all
    with True False show ?thesis by (simp add: settleLoaded_def)
  next
    case w: True
    let ?w = "case outcome of Rejected error \<Rightarrow> emit (RethrowAsync error) w | _ \<Rightarrow> w"
    let ?q = "case outcome of Rejected error \<Rightarrow> [RethrowAsync error] | _ \<Rightarrow> []"
    have "Inv T0 (?t, ?w)"
      by (rule Inv_quiet [OF assms, where q = ?q]) (simp_all split: Settled.splits)
    then have "Inv T0 (readyNow (?t, ?w))" by (rule Inv_readyNow)
    with True w show ?thesis by (simp add: settleLoaded_def loaded_readyNow)
  qed
qed

lemma Inv_step:
  assumes "Inv T0 s"
  shows "Inv T0 (step ev s)"
proof -
  obtain t w where s: "s = (t, w)" by (cases s)
  show ?thesis
  proof (cases ev)
    case (DomChange r newWindow)
    have "Inv T0 (t, w\<lparr>windows := (windows w)(r := newWindow)\<rparr>)"
      by (rule Inv_quiet [OF assms [unfolded s], where q = "[]"]) simp_all
    with s DomChange show ?thesis by simp
  next
    case IntervalFires
    show ?thesis
    proof (cases "interval t \<and> isIframeReady w (instIframe t)")
      case True
      have "Inv T0 (readyNow (t, w))" using assms [unfolded s] by (rule Inv_readyNow)
      with s IntervalFires True show ?thesis by (simp add: interval_readyNow)
    next
      case False
      with s IntervalFires assms show ?thesis
        by (auto simp add: interval_readyNow Inv_microtasks)
    qed
  next
    case (LoadEvent target)
    let ?w = "if target = IframeTarget (instIframe t)
               then updIframe (instIframe t) (\<lambda>i. i\<lparr>iframeReadyState := Some ''complete''\<rparr>) w
               else w"
    have i: "Inv T0 (t, ?w)"
      by (rule Inv_quiet [OF assms [unfolded s], where q = "[]"]) simp_all
    then have "Inv T0 (settleLoaded Resolved (t, ?w))" by (rule Inv_settleLoaded)
    with i s LoadEvent show ?thesis by (auto simp add: Let_def split: if_splits)
  next
    case (ErrorEvent target error)
    have "Inv T0 (settleLoaded (Rejected error) (t, w))"
      using assms [unfolded s] by (rule Inv_settleLoaded)
    with s ErrorEvent assms show ?thesis by simp
  qed
qed

lemma Inv_fold: "Inv T0 s \<Longrightarrow> Inv T0 (fold step evs s)"
  by (induction evs arbitrary: s) (simp_all add: Inv_step)


section \<open>What no task changes\<close>

lemma sameTask_refl [simp]: "sameTask t t"
  by (simp add: sameTask_def)

lemma sameTask_trans: "sameTask a b \<Longrightarrow> sameTask b c \<Longrightarrow> sameTask a c"
  by (simp add: sameTask_def)

lemma sameTask_whenReady: "sameTask (fst s) (fst (whenReady s))"
  by (cases s) (simp add: whenReady_fst sameTask_def)

lemma sameTask_microtasks: "sameTask (fst s) (fst (microtasks s))"
  by (simp add: microtasks_def sameTask_whenReady)

lemma sameTask_readyNow: "sameTask (fst s) (fst (readyNow s))"
proof -
  have "sameTask (fst s) (fst (clearInterval (resolve s)))"
    by (cases s) (simp add: clearInterval_def resolve_def sameTask_def)
  then show ?thesis
    unfolding readyNow_def using sameTask_microtasks sameTask_trans by blast
qed

lemma sameTask_settleLoaded: "sameTask (fst s) (fst (settleLoaded outcome s))"
proof -
  obtain t w where s: "s = (t, w)" by (cases s)
  have a: "sameTask t (t\<lparr>loadedPromise := outcome\<rparr>)" by (simp add: sameTask_def)
  have "sameTask (t\<lparr>loadedPromise := outcome\<rparr>) (fst (readyNow (t\<lparr>loadedPromise := outcome\<rparr>, x)))"
    for x using sameTask_readyNow [of "(t\<lparr>loadedPromise := outcome\<rparr>, x)"] by simp
  with a have "sameTask t (fst (readyNow (t\<lparr>loadedPromise := outcome\<rparr>, x)))" for x
    using sameTask_trans by blast
  with a s show ?thesis
    by (simp add: settleLoaded_def loaded_readyNow Let_def)
qed

lemma sameTask_step: "sameTask (fst s) (fst (step ev s))"
proof -
  obtain t w where s: "s = (t, w)" by (cases s)
  show ?thesis
  proof (cases ev)
    case (DomChange r newWindow)
    with s show ?thesis by simp
  next
    case IntervalFires
    with s show ?thesis
      using sameTask_readyNow [of "(t, w)"] sameTask_microtasks [of "(t, w)"]
      by (simp add: interval_readyNow)
  next
    case (LoadEvent target)
    with s show ?thesis
      using sameTask_settleLoaded [of "(t, x)" Resolved for x]
      by (simp add: Let_def)
  next
    case (ErrorEvent target error)
    with s show ?thesis
      using sameTask_settleLoaded [of "(t, w)" "Rejected error"] by simp
  qed
qed

lemma sameTask_fold: "sameTask (fst s) (fst (fold step evs s))"
proof (induction evs arbitrary: s)
  case Nil
  show ?case by simp
next
  case (Cons ev evs)
  have "sameTask (fst s) (fst (step ev s))" by (rule sameTask_step)
  moreover have "sameTask (fst (step ev s)) (fst (fold step evs (step ev s)))" by (rule Cons.IH)
  ultimately show ?case using sameTask_trans by auto
qed

lemma sameTask_run: "sameTask (fst s) (fst (run evs s))"
  unfolding run_def using sameTask_microtasks sameTask_fold sameTask_trans by blast

lemma contentWindow_readyNow:
  "contentWindow (iframes (snd (readyNow s)) i) = contentWindow (iframes (snd s) i)"
  by (cases s)
    (simp add: readyNow_def microtasks_def clearInterval_def resolve_def whenReady_iframes)

lemma contentWindow_microtasks:
  "contentWindow (iframes (snd (microtasks s)) i) = contentWindow (iframes (snd s) i)"
  by (cases s) (simp add: microtasks_def whenReady_iframes)

lemma contentWindow_settleLoaded:
  "contentWindow (iframes (snd (settleLoaded outcome s)) i) = contentWindow (iframes (snd s) i)"
  by (cases s)
    (simp add: settleLoaded_def loaded_readyNow contentWindow_readyNow Let_def
       split: Settled.splits)

lemma contentWindow_step:
  "contentWindow (iframes (snd (step ev s)) i) = contentWindow (iframes (snd s) i)"
proof -
  obtain t w where s: "s = (t, w)" by (cases s)
  show ?thesis
  proof (cases ev)
    case (DomChange r newWindow)
    with s show ?thesis by simp
  next
    case IntervalFires
    with s show ?thesis
      by (simp add: interval_readyNow contentWindow_readyNow contentWindow_microtasks)
  next
    case (LoadEvent target)
    with s show ?thesis
      by (simp add: Let_def contentWindow_settleLoaded)
  next
    case (ErrorEvent target error)
    with s show ?thesis by (simp add: contentWindow_settleLoaded)
  qed
qed

lemma contentWindow_fold:
  "contentWindow (iframes (snd (fold step evs s)) i) = contentWindow (iframes (snd s) i)"
  by (induction evs arbitrary: s) (simp_all add: contentWindow_step)

lemma contentWindow_run:
  "contentWindow (iframes (snd (run evs s)) i) = contentWindow (iframes (snd s) i)"
  by (simp add: run_def contentWindow_fold contentWindow_microtasks)


section \<open>From the call to the end of a run\<close>

lemma awaitReady_task:
  "instIframe (fst (awaitReady env ifr sp hook target w)) = ifr"
  "instSpec (fst (awaitReady env ifr sp hook target w)) = sp"
  "opt_preinstallCallback (fst (awaitReady env ifr sp hook target w)) = hook"
  "installThrows (fst (awaitReady env ifr sp hook target w)) = extensionsThrow env"
  "loadTarget (fst (awaitReady env ifr sp hook target w)) = target"
  "waiting (fst (awaitReady env ifr sp hook target w)) = (\<not> isIframeReady w ifr)"
  "iframes (snd (awaitReady env ifr sp hook target w)) = iframes w"
  by (simp_all add: awaitReady_def Let_def)

lemma Inv_awaitReady:
  assumes "trace w = T0 @ new" "filter milestone new = []"
  shows "Inv T0 (microtasks (awaitReady env ifr sp hook target w))"
proof (cases "isIframeReady w ifr")
  case True
  let ?t = "\<lparr>instIframe = ifr, instSpec = sp, opt_preinstallCallback = hook,
               installThrows = extensionsThrow env, loadTarget = target,
               loadedPromise = Pending, waiting = False, interval = False,
               readyPromise = True, installPromise = NotSettled\<rparr>"
  have "Inv T0 (whenReady (?t, emit ResolveReady w))"
    by (rule Inv_whenReady [where new = "new @ [ResolveReady]"]) (simp_all add: assms)
  with True show ?thesis by (simp add: awaitReady_def microtasks_def)
next
  case False
  then have "Inv T0 (awaitReady env ifr sp hook target w)"
    using assms
    by (auto simp add: awaitReady_def Inv_def progress_def)
  then show ?thesis by (simp add: Inv_microtasks)
qed

lemma install_world:
  assumes "installFriendlyIframeEmbed env ifr sp hook w0 = Inr s0"
  shows "\<exists>target w new. s0 = awaitReady env ifr sp hook target w
           \<and> trace w = trace w0 @ new \<and> filter milestone new = []
           \<and> contentWindow (iframes w ifr) = attachedWindow env"
proof -
  have pre: "\<exists>q. trace (case extensionIds sp of None \<Rightarrow> x
                | Some ids \<Rightarrow> fold (\<lambda>extensionId. emit (LoadExtension extensionId)) ids x)
              = trace x @ q \<and> filter milestone q = []" for x
    by (cases "extensionIds sp") (simp_all add: fire_trace)
  show ?thesis
    using assms pre [of "setAttribute ifr ''referrerpolicy'' ''unsafe-url''
      (setStyle ifr ''visibility'' ''hidden'' w0)"]
    unfolding installFriendlyIframeEmbed_def containerAppendChild_def isSrcdocSupported_def
      setStyle_def setAttribute_def
    by (fastforce simp add: Let_def fire_trace split: option.splits if_splits prod.splits)
qed

lemma Inv_run:
  assumes "installFriendlyIframeEmbed env ifr sp hook w0 = Inr s0"
  shows "Inv (trace w0) (run evs s0)"
proof -
  from install_world [OF assms] obtain target w new where
    "s0 = awaitReady env ifr sp hook target w" "trace w = trace w0 @ new"
    "filter milestone new = []" by blast
  then have "Inv (trace w0) (microtasks s0)" by (simp add: Inv_awaitReady)
  then show ?thesis unfolding run_def by (rule Inv_fold)
qed

lemma task_run:
  assumes "installFriendlyIframeEmbed env ifr sp hook w0 = Inr s0"
  shows "instIframe (fst (run evs s0)) = ifr \<and> instSpec (fst (run evs s0)) = sp
         \<and> opt_preinstallCallback (fst (run evs s0)) = hook
         \<and> installThrows (fst (run evs s0)) = extensionsThrow env
         \<and> waiting (fst (run evs s0)) = waiting (fst s0)
         \<and> contentWindow (iframes (snd (run evs s0)) ifr) = attachedWindow env"
proof -
  from install_world [OF assms] obtain target w new where
    s0: "s0 = awaitReady env ifr sp hook target w"
    and cw: "contentWindow (iframes w ifr) = attachedWindow env" by blast
  have "sameTask (fst s0) (fst (run evs s0))" by (rule sameTask_run)
  then show ?thesis
    unfolding sameTask_def using cw
    by (simp add: s0 awaitReady_task contentWindow_run)
qed

text \<open>The definitions that the example installation is evaluated with.\<close>

lemmas evalInstall = installFriendlyIframeEmbed_def awaitReady_def containerAppendChild_def
  isSrcdocSupported_def setStyle_def setAttribute_def updIframe_def updEmbed_def emit_def
  isIframeReady_def isDocumentReady_def firstChild_def appendChild_def
  microtasks_def resolve_def clearInterval_def intervalCallback_def loadedSettled_def
  settleLoaded_def whenReady_def startRender'_def newFriendlyIframeEmbed_def setStyles_def
  run_def Let_def
  blankIframe_def blankEmbed_def emptyBody_def emptyBodyDoc_def hostWorld_def chromeLike_def
  adSpec_def filledWindow_def

text \<open>
  C8. In a run that ends with the returned promise fulfilled with an embed, the
  milestones that the installation has added to the trace are, in this order and each
  once: the readiness wait satisfied; \<open>installExtensionsInChildWindow\<close> called with
  the child window, the extension ids of the spec in their order
  (\<open>spec.extensionIds || []\<close>) and the hook; the signal \<open>render-start\<close> of that
  embed; the promise fulfilled with it. The style \<open>visibility\<close> of the iframe is
  then the empty string, and the embed is the one stored on the iframe.
\<close>

theorem install_order:
  assumes "installFriendlyIframeEmbed env ifr sp hook w0 = Inr s0"
    and "run evs s0 = (t, w)" and "installPromise t = Fulfilled e"
  shows "\<exists>new cw. trace w = trace w0 @ new
           \<and> filter milestone new =
               [ResolveReady,
                InstallExtensionsInChildWindow (Some cw) (specExtensionIds sp) hook,
                Signal e ''render-start'',
                FulfilInstall e]
           \<and> contentWindow (iframes w ifr) = Some cw
           \<and> iframeStyle (iframes w ifr) ''visibility'' = Some ''''
           \<and> getFriendlyIframeEmbedOptional w ifr = Some e"
proof -
  from Inv_run [OF assms(1), of evs] assms(2) have "Inv (trace w0) (t, w)" by simp
  then obtain new where new: "trace w = trace w0 @ new" and p: "progress t w new"
    by (auto simp add: Inv_def)
  from task_run [OF assms(1), of evs] assms(2)
  have c: "instIframe t = ifr" "instSpec t = sp" "opt_preinstallCallback t = hook" by simp_all
  from p assms(3) c obtain cw where "contentWindow (iframes w ifr) = Some cw"
    by (auto simp add: progress_def)
  with p assms(3) c new show ?thesis
    by (auto simp add: progress_def getFriendlyIframeEmbedOptional_def)
qed

theorem install_order_witness:
  "installFriendlyIframeEmbed chromeLike 3 adSpec (Some 9) hostWorld = Inr waitingInstall
   \<and> installPromise (fst installedState) = Fulfilled 0
   \<and> (\<exists>new cw. trace (snd installedState) = trace hostWorld @ new
        \<and> filter milestone new =
            [ResolveReady,
             InstallExtensionsInChildWindow (Some cw) (specExtensionIds adSpec) (Some 9),
             Signal 0 ''render-start'', FulfilInstall 0]
        \<and> contentWindow (iframes (snd installedState) 3) = Some cw
        \<and> iframeStyle (iframes (snd installedState) 3) ''visibility'' = Some ''''
        \<and> getFriendlyIframeEmbedOptional (snd installedState) 3 = Some 0)
   \<and> trace (snd installedState) =
       [LoadExtension ''amp-a'', LoadExtension ''amp-b'', AppendChild 3, SetInterval,
        ResolveReady, ClearInterval,
        InstallExtensionsInChildWindow (Some 5) [''amp-a'', ''amp-b''] (Some 9),
        Signal 0 ''render-start'', FulfilInstall 0]"
proof -
  have h1: "installFriendlyIframeEmbed chromeLike 3 adSpec (Some 9) hostWorld = Inr waitingInstall"
    by (simp add: waitingInstall_def evalInstall)
  have h2: "run [IntervalFires, DomChange 5 filledWindow, IntervalFires] waitingInstall
      = (fst installedState, snd installedState)"
    by (simp add: installedState_def)
  have h3: "installPromise (fst installedState) = Fulfilled 0"
    by (simp add: installedState_def waitingInstall_def evalInstall)
  have tr: "trace (snd installedState) =
       [LoadExtension ''amp-a'', LoadExtension ''amp-b'', AppendChild 3, SetInterval,
        ResolveReady, ClearInterval,
        InstallExtensionsInChildWindow (Some 5) [''amp-a'', ''amp-b''] (Some 9),
        Signal 0 ''render-start'', FulfilInstall 0]"
    by (simp add: installedState_def waitingInstall_def evalInstall)
  from install_order [OF h1 h2 h3] h1 h3 tr show ?thesis by blast
qed

text \<open>
  C7. An installation that waits (the document was not ready when it was checked),
  after any events, with \<open>loadedPromise\<close> still pending; the error event of the load
  target arrives with \<open>err\<close>. Then \<open>loadedPromise\<close> is rejected with \<open>err\<close>; the
  first call added to the trace is \<open>rethrowAsync(err)\<close>, and \<open>clearInterval\<close> is
  called after it; the interval is no longer set; \<open>readyPromise\<close> is resolved; and the
  returned promise is in the state it would be in had the load event arrived instead:
  if it is rejected, then with the error of the extensions service or with the
  \<open>TypeError\<close> of a \<open>null\<close> child window, and with neither of the two it is
  fulfilled.
\<close>

theorem load_failure_forwarded:
  assumes "installFriendlyIframeEmbed env ifr sp hook w0 = Inr s0"
    and "waiting (fst s0)"
    and "run evs s0 = (t, w)" and "loadedPromise t = Pending"
    and "step (ErrorEvent (loadTarget t) err) (t, w) = (t', w')"
  shows "loadedPromise t' = Rejected err
       \<and> (\<exists>rest. trace w' = trace w @ RethrowAsync err # rest \<and> ClearInterval \<in> set rest)
       \<and> \<not> interval t'
       \<and> readyPromise t'
       \<and> installPromise t' = installPromise (fst (step (LoadEvent (loadTarget t)) (t, w)))
       \<and> (\<forall>x. installPromise t' = RejectedWith x \<longrightarrow>
             extensionsThrow env = Some x
             \<or> x = TypeError ''document'' \<and> attachedWindow env = None)
       \<and> (extensionsThrow env = None \<and> attachedWindow env \<noteq> None \<longrightarrow>
             (\<exists>e. installPromise t' = Fulfilled e))"
proof -
  from Inv_run [OF assms(1), of evs] assms(3) have inv: "Inv (trace w0) (t, w)" by simp
  then obtain new where p: "progress t w new" by (auto simp add: Inv_def)
  from task_run [OF assms(1), of evs] assms(2,3)
  have c: "instIframe t = ifr" "installThrows t = extensionsThrow env" "waiting t"
    "contentWindow (iframes w ifr) = attachedWindow env" by simp_all
  let ?t1 = "t\<lparr>loadedPromise := Rejected err\<rparr>"
  let ?w1 = "emit (RethrowAsync err) w"
  have st: "(t', w') = readyNow (?t1, ?w1)"
    using assms(4,5) c(3) by (simp add: settleLoaded_def loaded_readyNow Let_def)
  let ?t2 = "t\<lparr>loadedPromise := Resolved\<rparr>"
  let ?w2 = "if loadTarget t = IframeTarget (instIframe t)
               then updIframe (instIframe t) (\<lambda>i. i\<lparr>iframeReadyState := Some ''complete''\<rparr>) w
               else w"
  have st2: "step (LoadEvent (loadTarget t)) (t, w) = readyNow (?t2, ?w2)"
    using assms(4) c(3) by (simp add: settleLoaded_def loaded_readyNow Let_def)
  show ?thesis
  proof (cases "installPromise t = NotSettled")
    case True
    with p have nr: "\<not> readyPromise t" by (simp add: progress_def)
    have r1: "(t', w') = whenReady (?t1\<lparr>readyPromise := True, interval := False\<rparr>,
                  emit ClearInterval (emit ResolveReady ?w1))"
      using st True nr by (simp add: readyNow_fresh)
    have r2: "step (LoadEvent (loadTarget t)) (t, w)
        = whenReady (?t2\<lparr>readyPromise := True, interval := False\<rparr>,
                  emit ClearInterval (emit ResolveReady ?w2))"
      using st2 True nr by (simp add: readyNow_fresh)
    have t': "t' = fst (whenReady (?t1\<lparr>readyPromise := True, interval := False\<rparr>,
                  emit ClearInterval (emit ResolveReady ?w1)))"
      and w': "w' = snd (whenReady (?t1\<lparr>readyPromise := True, interval := False\<rparr>,
                  emit ClearInterval (emit ResolveReady ?w1)))"
      using r1 by (metis fst_conv, metis snd_conv)
    show ?thesis
      unfolding t' w' r2 using c
      by (auto simp add: whenReady_fst whenReady_trace split: option.splits)
  next
    case False
    with p have r: "readyPromise t" by (cases "installPromise t") (auto simp add: progress_def)
    have "(t', w') = (?t1\<lparr>interval := False\<rparr>, emit ClearInterval ?w1)"
      using st False r by (simp add: readyNow_settled)
    then have t': "t' = ?t1\<lparr>interval := False\<rparr>" and w': "w' = emit ClearInterval ?w1"
      by simp_all
    have r2: "step (LoadEvent (loadTarget t)) (t, w) = (?t2\<lparr>interval := False\<rparr>, emit ClearInterval ?w2)"
      using st2 False r by (simp add: readyNow_settled)
    show ?thesis
      unfolding t' w' r2 using c p r False
      by (cases "installPromise t") (auto simp add: progress_def)
  qed
qed

theorem load_failure_forwarded_witness:
  "installFriendlyIframeEmbed chromeLike 3 adSpec (Some 9) hostWorld = Inr waitingInstall
   \<and> waiting (fst waitingInstall)
   \<and> loadedPromise (fst (run [IntervalFires] waitingInstall)) = Pending
   \<and> loadTarget (fst (run [IntervalFires] waitingInstall)) = IframeTarget 3
   \<and> loadedPromise (fst (step (ErrorEvent (IframeTarget 3) (LoadFailure ''net''))
         (run [IntervalFires] waitingInstall))) = Rejected (LoadFailure ''net'')
   \<and> \<not> interval (fst (step (ErrorEvent (IframeTarget 3) (LoadFailure ''net''))
         (run [IntervalFires] waitingInstall)))
   \<and> readyPromise (fst (step (ErrorEvent (IframeTarget 3) (LoadFailure ''net''))
         (run [IntervalFires] waitingInstall)))
   \<and> (\<exists>e. installPromise (fst (step (ErrorEvent (IframeTarget 3) (LoadFailure ''net''))
         (run [IntervalFires] waitingInstall))) = Fulfilled e)
   \<and> trace (snd (step (ErrorEvent (IframeTarget 3) (LoadFailure ''net''))
         (run [IntervalFires] waitingInstall))) =
       [LoadExtension ''amp-a'', LoadExtension ''amp-b'', AppendChild 3, SetInterval,
        RethrowAsync (LoadFailure ''net''), ResolveReady, ClearInterval,
        InstallExtensionsInChildWindow (Some 5) [''amp-a'', ''amp-b''] (Some 9),
        Signal 0 ''render-start'', FulfilInstall 0]"
proof -
  let ?s = "run [IntervalFires] waitingInstall"
  let ?s' = "step (ErrorEvent (IframeTarget 3) (LoadFailure ''net'')) ?s"
  have h1: "installFriendlyIframeEmbed chromeLike 3 adSpec (Some 9) hostWorld = Inr waitingInstall"
    by (simp add: waitingInstall_def evalInstall)
  have h2: "waiting (fst waitingInstall)" by (simp add: waitingInstall_def evalInstall)
  have h3: "?s = (fst ?s, snd ?s)" by simp
  have h4: "loadedPromise (fst ?s) = Pending" by (simp add: waitingInstall_def evalInstall)
  have lt: "loadTarget (fst ?s) = IframeTarget 3" by (simp add: waitingInstall_def evalInstall)
  have h5: "step (ErrorEvent (loadTarget (fst ?s)) (LoadFailure ''net'')) (fst ?s, snd ?s)
      = (fst ?s', snd ?s')"
    unfolding lt by simp
  have env: "extensionsThrow chromeLike = None \<and> attachedWindow chromeLike \<noteq> None"
    by (simp add: chromeLike_def)
  have tr: "trace (snd ?s') =
       [LoadExtension ''amp-a'', LoadExtension ''amp-b'', AppendChild 3, SetInterval,
        RethrowAsync (LoadFailure ''net''), ResolveReady, ClearInterval,
        InstallExtensionsInChildWindow (Some 5) [''amp-a'', ''amp-b''] (Some 9),
        Signal 0 ''render-start'', FulfilInstall 0]"
    by (simp add: waitingInstall_def evalInstall)
  from load_failure_forwarded [OF h1 h2 h3 h4 h5] env h1 h2 h4 lt tr show ?thesis by blast
qed


section \<open>Destroying an embed\<close>

text \<open>
  C9, as stated, fails: \<open>destroy\<close> has two statements and neither touches the
  property \<open>__AMP_EMBED__\<close> of the iframe. After the installation of the example,
  the embed 0 is stored on iframe 3, and \<open>getFriendlyIframeEmbedOptional\<close> still
  yields it after \<open>destroy\<close>.
\<close>

theorem destroy_keeps_lookup:
  "installPromise (fst installedState) = Fulfilled 0
   \<and> win (embeds (snd installedState) 0) = Some 5
   \<and> getFriendlyIframeEmbedOptional (snd installedState) 3 = Some 0
   \<and> getFriendlyIframeEmbedOptional (destroy 0 (snd installedState)) 3 = Some 0"
  by (simp add: installedState_def waitingInstall_def evalInstall destroy_def
      removeForChildWindow_def disposeServicesForEmbed_def getFriendlyIframeEmbedOptional_def)

text \<open>
  C9, amended. After \<open>destroy\<close> of an embed with child window \<open>cw\<close>,
  \<open>removeForChildWindow\<close> has been applied to the resources and none of them is hosted
  by \<open>cw\<close>; \<open>disposeServicesForEmbed\<close> has been applied to the services and none of
  them is held for \<open>cw\<close>; and the lookup by iframe handle yields, for every iframe,
  what it yielded before, the embeds being unchanged.
\<close>

theorem destroy_releases:
  assumes "win (embeds w e) = Some cw"
  shows "resources (destroy e w) = removeForChildWindow (Some cw) (resources w)
       \<and> (\<forall>r\<in>set (resources (destroy e w)). hostWin r \<noteq> cw)
       \<and> services (destroy e w) = disposeServicesForEmbed (Some cw) (services w)
       \<and> (\<forall>s\<in>set (services (destroy e w)). fst s \<noteq> cw)
       \<and> (\<forall>ifr. getFriendlyIframeEmbedOptional (destroy e w) ifr
                  = getFriendlyIframeEmbedOptional w ifr)
       \<and> embeds (destroy e w) = embeds w"
  using assms
  by (auto simp add: destroy_def removeForChildWindow_def disposeServicesForEmbed_def
      getFriendlyIframeEmbedOptional_def Let_def)

theorem destroy_releases_witness:
  "win (embeds (snd installedState) 0) = Some 5
   \<and> resources (snd installedState) =
       [\<lparr>resourceId = 1, hostWin = 5\<rparr>, \<lparr>resourceId = 2, hostWin = 6\<rparr>]
   \<and> resources (destroy 0 (snd installedState)) = [\<lparr>resourceId = 2, hostWin = 6\<rparr>]
   \<and> services (destroy 0 (snd installedState)) = [(6, ''viewport'')]
   \<and> getFriendlyIframeEmbedOptional (destroy 0 (snd installedState)) 3
       = getFriendlyIframeEmbedOptional (snd installedState) 3"
proof -
  have h: "win (embeds (snd installedState) 0) = Some 5"
    by (simp add: installedState_def waitingInstall_def evalInstall)
  have r: "resources (snd installedState) =
       [\<lparr>resourceId = 1, hostWin = 5\<rparr>, \<lparr>resourceId = 2, hostWin = 6\<rparr>]"
    by (simp add: installedState_def waitingInstall_def evalInstall)
  have s: "services (snd installedState) = [(5, ''viewport''), (6, ''viewport'')]"
    by (simp add: installedState_def waitingInstall_def evalInstall)
  from destroy_releases [OF h] h r s show ?thesis
    by (simp add: removeForChildWindow_def disposeServicesForEmbed_def)
qed

end
